theory Spec2Isabelle
  imports Main "HOL-Library.Char_ord"
begin

section \<open>Data model\<close>

text \<open>
  A C string is modelled by the list of its characters before the terminating NUL; a pointer
  into a string is the list of characters from that pointer on (what \<^verbatim>\<open>%s\<close> prints), so
  that advancing a pointer is \<open>tl\<close> and \<^verbatim>\<open>*p\<close> at the end of the string is NUL.
  A \<^verbatim>\<open>char *\<close> value is \<open>NULL\<close>, the library's static string
  \<^verbatim>\<open>ext_args_no_value\<close> (compared by address in the source), or a pointer into the
  schema or into an element of \<^verbatim>\<open>argv\<close>.
  Allocation (\<^verbatim>\<open>malloc\<close>, \<^verbatim>\<open>realloc\<close>, \<^verbatim>\<open>calloc\<close>) is taken to succeed: the
  growable arrays of \<^verbatim>\<open>EXT_ARGS_DYN_ARY_SAVE\<close> are lists, and saving is appending.
\<close>

datatype cptr = NULL | ext_args_no_value | Ptr string

datatype tok_type =
    EXT_ARGS_TOK_EOI
  | EXT_ARGS_TOK_LBRAK
  | EXT_ARGS_TOK_RBRAK
  | EXT_ARGS_TOK_PIPE
  | EXT_ARGS_TOK_EQL
  | EXT_ARGS_TOK_NAME
  | EXT_ARGS_TOK_FLOAT_ARG
  | EXT_ARGS_TOK_DOTS

type_synonym addr = nat

record EXT_ARGS_PosArg =
  pa_isOptional :: bool
  pa_str :: cptr
  pa_len :: nat
  pa_varPtr :: "addr option"

record EXT_ARGS_FloatArg =
  fa_str :: cptr
  fa_len :: nat
  fa_groupIdx :: nat

record EXT_ARGS_FloatArgsGroup =
  gr_isOptional :: bool
  gr_hasAssign :: bool
  gr_isAssignOptional :: bool
  gr_isRepeating :: bool
  gr_aliasCount :: nat
  gr_varPtr :: "addr option"
  gr_isUsed :: bool
  gr_ary :: "cptr list"

record EXT_ARGS_Tok =
  tok_type :: tok_type
  tok_str :: cptr
  tok_len :: nat

datatype arg_type = EXT_ARGS_ARG_POS | EXT_ARGS_ARG_GROUP

record EXT_ARGS_SequenceElement =
  sq_type :: arg_type
  sq_idx :: nat

record EXT_ARGS_Parser =
  prs_str :: string
  prs_isOptional :: bool
  lastMatchTok :: EXT_ARGS_Tok
  posArgs :: "EXT_ARGS_PosArg list"
  groups :: "EXT_ARGS_FloatArgsGroup list"
  floats :: "EXT_ARGS_FloatArg list"
  sequence :: "EXT_ARGS_SequenceElement list"
  varPosArgsEnabled :: bool
  varPosrArgsVarPtr :: "addr option"

text \<open>The non-local exits of the schema parser: the value given to \<^verbatim>\<open>longjmp\<close>, with the
  parser fields set just before the jump (\<^verbatim>\<open>errStart\<close>; \<^verbatim>\<open>expTokType\<close>,
  \<^verbatim>\<open>unexpTokType\<close>).\<close>

datatype jmp =
    EXT_ARGS_ERR_LEX string
  | EXT_ARGS_ERR_PARSE tok_type tok_type string
  | EXT_ARGS_ERR_MEM

section \<open>Schema lexing\<close>

text \<open>The lexing functions read and move only the cursor \<^verbatim>\<open>prs->str\<close>; they are modelled
  on the cursor. \<^verbatim>\<open>EXT_ARGS_Char\<close> is only ever called with a character other than NUL.\<close>

definition deref :: "string \<Rightarrow> char" where
  "deref s = (case s of [] \<Rightarrow> CHR 0x00 | c # _ \<Rightarrow> c)"

definition EXT_ARGS_Char :: "char \<Rightarrow> string \<Rightarrow> bool \<times> string" where
  "EXT_ARGS_Char c s = (if deref s = c then (True, tl s) else (False, s))"

text \<open>\<^verbatim>\<open>while(EXT_ARGS_Char(c, prs));\<close>\<close>

fun EXT_ARGS_Chars :: "char \<Rightarrow> string \<Rightarrow> string" where
  "EXT_ARGS_Chars c [] = []"
| "EXT_ARGS_Chars c (x # xs) = (if x = c then EXT_ARGS_Chars c xs else x # xs)"

definition is_alpha :: "char \<Rightarrow> bool" where
  "is_alpha c = ((CHR ''a'' \<le> c \<and> c \<le> CHR ''z'') \<or> (CHR ''A'' \<le> c \<and> c \<le> CHR ''Z''))"

definition is_name_char :: "char \<Rightarrow> bool" where
  "is_name_char c =
     ((CHR ''a'' \<le> c \<and> c \<le> CHR ''z'') \<or> (CHR ''A'' \<le> c \<and> c \<le> CHR ''Z'')
      \<or> (CHR ''0'' \<le> c \<and> c \<le> CHR ''9'') \<or> (c = CHR ''_'' \<or> c = CHR ''-''))"

text \<open>The \<^verbatim>\<open>while\<close> loop of \<^verbatim>\<open>EXT_ARGS_Name\<close>: the name characters passed over, in
  reverse order (so that the head is the last character read), and the cursor after them.\<close>

fun name_chars :: "string \<Rightarrow> string \<Rightarrow> string \<times> string" where
  "name_chars seen [] = (seen, [])"
| "name_chars seen (x # xs) = (if is_name_char x then name_chars (x # seen) xs else (seen, x # xs))"

definition EXT_ARGS_Name :: "string \<Rightarrow> bool \<times> string" where
  "EXT_ARGS_Name s =
     (if \<not> is_alpha (deref s) then (False, s)
      else
        (case name_chars [hd s] (tl s) of (seen, c) \<Rightarrow>
           if length c = length s then (False, s)
           else if hd seen = CHR ''-'' then (False, s)
           else (True, c)))"

definition EXT_ARGS_ArgFloat :: "string \<Rightarrow> bool \<times> string" where
  "EXT_ARGS_ArgFloat bk =
     (let s = EXT_ARGS_Chars (CHR ''-'') bk;
          d = length bk - length s
      in if d < 1 then (False, bk)
         else (case EXT_ARGS_Name s of
                 (False, _) \<Rightarrow> (False, bk)
               | (True, s') \<Rightarrow> (True, s')))"

definition EXT_ARGS_Dots :: "string \<Rightarrow> bool \<times> string" where
  "EXT_ARGS_Dots bk =
     (let s = EXT_ARGS_Chars (CHR ''.'') bk
      in if length bk - length s \<noteq> 3 then (False, bk) else (True, s))"

definition is_space :: "char \<Rightarrow> bool" where
  "is_space c = (c = CHR '' '' \<or> c = CHR 0x0A \<or> c = CHR 0x09 \<or> c = CHR 0x0D)"

fun skip_spaces :: "string \<Rightarrow> string" where
  "skip_spaces [] = []"
| "skip_spaces (x # xs) = (if is_space x then skip_spaces xs else x # xs)"

definition EXT_ARGS_SkipSpaces :: "string \<Rightarrow> bool \<times> string" where
  "EXT_ARGS_SkipSpaces bk =
     (let s = skip_spaces bk in if length bk - length s = 0 then (False, s) else (True, s))"

definition mk_tok :: "tok_type \<Rightarrow> string \<Rightarrow> string \<Rightarrow> EXT_ARGS_Tok" where
  "mk_tok ty bk s = \<lparr>tok_type = ty, tok_str = Ptr bk, tok_len = length bk - length s\<rparr>"

definition eoi_tok :: EXT_ARGS_Tok where
  "eoi_tok = \<lparr>tok_type = EXT_ARGS_TOK_EOI, tok_str = NULL, tok_len = 0\<rparr>"

text \<open>One token at a cursor that is neither at the end nor on white space: the body of the
  loop of \<^verbatim>\<open>EXT_ARGS_NextTok\<close> after \<^verbatim>\<open>EXT_ARGS_SkipSpaces\<close>. \<open>Inl\<close> is the jump with
  \<^verbatim>\<open>EXT_ARGS_ERR_LEX\<close>, carrying \<^verbatim>\<open>errStart\<close>.\<close>

definition tok_at :: "string \<Rightarrow> string + (EXT_ARGS_Tok \<times> string)" where
  "tok_at bk =
     (case EXT_ARGS_Char (CHR ''['') bk of
        (True, s) \<Rightarrow> Inr (mk_tok EXT_ARGS_TOK_LBRAK bk s, s)
      | (False, _) \<Rightarrow>
     (case EXT_ARGS_Char (CHR '']'') bk of
        (True, s) \<Rightarrow> Inr (mk_tok EXT_ARGS_TOK_RBRAK bk s, s)
      | (False, _) \<Rightarrow>
     (case EXT_ARGS_Char (CHR ''|'') bk of
        (True, s) \<Rightarrow> Inr (mk_tok EXT_ARGS_TOK_PIPE bk s, s)
      | (False, _) \<Rightarrow>
     (case EXT_ARGS_Char (CHR ''='') bk of
        (True, s) \<Rightarrow> Inr (mk_tok EXT_ARGS_TOK_EQL bk s, s)
      | (False, _) \<Rightarrow>
     (case EXT_ARGS_Name bk of
        (True, s) \<Rightarrow> Inr (mk_tok EXT_ARGS_TOK_NAME bk s, s)
      | (False, _) \<Rightarrow>
     (case EXT_ARGS_ArgFloat bk of
        (True, s) \<Rightarrow> Inr (mk_tok EXT_ARGS_TOK_FLOAT_ARG bk s, s)
      | (False, _) \<Rightarrow>
     (case EXT_ARGS_Dots bk of
        (True, s) \<Rightarrow> Inr (mk_tok EXT_ARGS_TOK_DOTS bk s, s)
      | (False, _) \<Rightarrow> Inl bk)))))))"

lemma skip_spaces_length: "length (skip_spaces s) \<le> length s"
  by (induction s) auto

lemma EXT_ARGS_SkipSpaces_shorter:
  "EXT_ARGS_SkipSpaces s = (True, s') \<Longrightarrow> length s' < length s"
  using skip_spaces_length [of s]
  by (auto simp: EXT_ARGS_SkipSpaces_def Let_def split: if_splits)

function EXT_ARGS_NextTok :: "string \<Rightarrow> string + (EXT_ARGS_Tok \<times> string)" where
  "EXT_ARGS_NextTok s =
     (if deref s \<noteq> CHR 0x00 then
        (case EXT_ARGS_SkipSpaces s of
           (True, s') \<Rightarrow> EXT_ARGS_NextTok s'
         | (False, s') \<Rightarrow> tok_at s')
      else Inr (eoi_tok, s))"
  by pat_completeness auto
termination
  by (relation "measure length") (auto dest: EXT_ARGS_SkipSpaces_shorter [OF sym])

declare EXT_ARGS_NextTok.simps [simp del]

lemma EXT_ARGS_Chars_length: "length (EXT_ARGS_Chars c s) \<le> length s"
  by (induction s) auto

lemma name_chars_length: "name_chars seen xs = (seen', c) \<Longrightarrow> length c \<le> length xs"
  by (induction xs arbitrary: seen) (auto split: if_splits intro: le_SucI)

lemma EXT_ARGS_Char_shorter:
  "EXT_ARGS_Char c s = (True, s') \<Longrightarrow> c \<noteq> CHR 0x00 \<Longrightarrow> length s' < length s"
  by (cases s) (auto simp: EXT_ARGS_Char_def deref_def split: if_splits)

lemma EXT_ARGS_Name_shorter: "EXT_ARGS_Name s = (True, s') \<Longrightarrow> length s' < length s"
proof -
  assume a: "EXT_ARGS_Name s = (True, s')"
  obtain seen c where nc: "name_chars [hd s] (tl s) = (seen, c)"
    by (cases "name_chars [hd s] (tl s)") auto
  from a nc have "s' = c" and "length c \<noteq> length s"
    by (auto simp: EXT_ARGS_Name_def split: if_splits)
  moreover from name_chars_length [OF nc] have "length c \<le> length s"
    by (cases s) auto
  ultimately show ?thesis by simp
qed

lemma EXT_ARGS_ArgFloat_shorter: "EXT_ARGS_ArgFloat s = (True, s') \<Longrightarrow> length s' < length s"
proof -
  assume a: "EXT_ARGS_ArgFloat s = (True, s')"
  obtain b c where n: "EXT_ARGS_Name (EXT_ARGS_Chars (CHR ''-'') s) = (b, c)"
    by (cases "EXT_ARGS_Name (EXT_ARGS_Chars (CHR ''-'') s)") auto
  from a n have "b" and "c = s'"
    by (auto simp: EXT_ARGS_ArgFloat_def Let_def split: if_splits bool.splits)
  with n have "length s' < length (EXT_ARGS_Chars (CHR ''-'') s)"
    by (auto dest: EXT_ARGS_Name_shorter)
  with EXT_ARGS_Chars_length [of "CHR ''-''" s] show ?thesis by simp
qed

lemma EXT_ARGS_Dots_shorter: "EXT_ARGS_Dots s = (True, s') \<Longrightarrow> length s' < length s"
  by (auto simp: EXT_ARGS_Dots_def Let_def split: if_splits)

lemma tok_at_shorter:
  "tok_at s = Inr (t, s') \<Longrightarrow> length s' < length s \<and> tok_type t \<noteq> EXT_ARGS_TOK_EOI"
  unfolding tok_at_def mk_tok_def
  by (auto split: prod.splits bool.splits
           dest: EXT_ARGS_Char_shorter EXT_ARGS_Name_shorter EXT_ARGS_ArgFloat_shorter
                 EXT_ARGS_Dots_shorter)

lemma EXT_ARGS_NextTok_length:
  "EXT_ARGS_NextTok s = Inr (t, s') \<Longrightarrow>
     length s' \<le> length s \<and> (tok_type t = EXT_ARGS_TOK_EOI \<or> length s' < length s)"
proof (induction s rule: EXT_ARGS_NextTok.induct)
  case (1 s)
  show ?case
  proof (cases "deref s \<noteq> CHR 0x00")
    case False
    with "1.prems" show ?thesis by (auto simp: eoi_tok_def EXT_ARGS_NextTok.simps [of s])
  next
    case True
    obtain b s1 where sk: "EXT_ARGS_SkipSpaces s = (b, s1)"
      by (cases "EXT_ARGS_SkipSpaces s") auto
    have le: "length s1 \<le> length s"
      using sk skip_spaces_length [of s]
      by (auto simp: EXT_ARGS_SkipSpaces_def Let_def split: if_splits)
    show ?thesis
    proof (cases b)
      case True
      with \<open>deref s \<noteq> CHR 0x00\<close> sk "1.prems" have "EXT_ARGS_NextTok s1 = Inr (t, s')"
        by (simp add: EXT_ARGS_NextTok.simps [of s])
      with "1.IH" [OF \<open>deref s \<noteq> CHR 0x00\<close> sk [symmetric] eqTrueI [OF True]] le
      show ?thesis by auto
    next
      case False
      with \<open>deref s \<noteq> CHR 0x00\<close> sk "1.prems" have "tok_at s1 = Inr (t, s')"
        by (simp add: EXT_ARGS_NextTok.simps [of s])
      with tok_at_shorter le show ?thesis by fastforce
    qed
  qed
qed

section \<open>Schema parsing\<close>

text \<open>\<open>Inl\<close> is a \<^verbatim>\<open>longjmp\<close>; \<open>Inr (b, prs)\<close> is the returned boolean with the parser state
  the call leaves behind. \<^verbatim>\<open>EXT_ARGS_NextTok\<close> moves only the cursor, so the rollback of
  \<^verbatim>\<open>EXT_ARGS_Match\<close> to its own backup gives the parser back unchanged.\<close>

definition EXT_ARGS_Match ::
  "tok_type \<Rightarrow> EXT_ARGS_Parser \<Rightarrow> bool \<Rightarrow> jmp + (bool \<times> EXT_ARGS_Parser)" where
  "EXT_ARGS_Match tokType prs isMandatory =
     (let bk = prs_str prs in
      case EXT_ARGS_NextTok (prs_str prs) of
        Inl errStart \<Rightarrow> Inl (EXT_ARGS_ERR_LEX errStart)
      | Inr (t, s) \<Rightarrow>
          if tok_type t = tokType then Inr (True, prs\<lparr>prs_str := s, lastMatchTok := t\<rparr>)
          else if isMandatory then Inl (EXT_ARGS_ERR_PARSE tokType (tok_type t) bk)
          else Inr (False, prs\<lparr>prs_str := bk\<rparr>))"

definition EXT_ARGS_AssignVal ::
  "EXT_ARGS_Parser \<Rightarrow> bool \<Rightarrow> jmp + (bool \<times> EXT_ARGS_Parser)" where
  "EXT_ARGS_AssignVal prs isMandatory =
     (let bk = prs_str prs in
      case EXT_ARGS_Match EXT_ARGS_TOK_EQL prs isMandatory of
        Inl e \<Rightarrow> Inl e
      | Inr (False, p1) \<Rightarrow> Inr (False, p1)
      | Inr (True, p1) \<Rightarrow>
          (case EXT_ARGS_Match EXT_ARGS_TOK_NAME p1 isMandatory of
             Inl e \<Rightarrow> Inl e
           | Inr (False, p2) \<Rightarrow> Inr (False, p2\<lparr>prs_str := bk\<rparr>)
           | Inr (True, p2) \<Rightarrow> Inr (True, p2)))"

definition EXT_ARGS_SavePosArg :: "EXT_ARGS_Parser \<Rightarrow> EXT_ARGS_Parser" where
  "EXT_ARGS_SavePosArg prs =
     prs\<lparr>sequence := sequence prs @
            [\<lparr>sq_type = EXT_ARGS_ARG_POS, sq_idx = length (posArgs prs)\<rparr>],
         posArgs := posArgs prs @
            [\<lparr>pa_isOptional = prs_isOptional prs,
              pa_str = tok_str (lastMatchTok prs),
              pa_len = tok_len (lastMatchTok prs),
              pa_varPtr = None\<rparr>]\<rparr>"

definition EXT_ARGS_SaveFloatArg :: "EXT_ARGS_Parser \<Rightarrow> nat \<Rightarrow> EXT_ARGS_Parser" where
  "EXT_ARGS_SaveFloatArg prs groupIdx =
     prs\<lparr>floats := floats prs @
            [\<lparr>fa_str = tok_str (lastMatchTok prs),
              fa_len = tok_len (lastMatchTok prs),
              fa_groupIdx = groupIdx\<rparr>]\<rparr>"

definition EXT_ARGS_SaveGroup ::
  "EXT_ARGS_Parser \<Rightarrow> bool \<Rightarrow> bool \<Rightarrow> nat \<Rightarrow> EXT_ARGS_Parser" where
  "EXT_ARGS_SaveGroup prs hasAssign isRepeating aliasCount =
     prs\<lparr>sequence := sequence prs @
            [\<lparr>sq_type = EXT_ARGS_ARG_GROUP, sq_idx = length (groups prs)\<rparr>],
         groups := groups prs @
            [\<lparr>gr_isOptional = prs_isOptional prs,
              gr_hasAssign = hasAssign,
              gr_isAssignOptional = False,
              gr_isRepeating = isRepeating,
              gr_aliasCount = aliasCount,
              gr_varPtr = None,
              gr_isUsed = False,
              gr_ary = []\<rparr>]\<rparr>"

lemma EXT_ARGS_Match_length:
  "EXT_ARGS_Match ty prs m = Inr (b, prs') \<Longrightarrow>
     length (prs_str prs') \<le> length (prs_str prs) \<and>
     (\<not> b \<or> ty = EXT_ARGS_TOK_EOI \<or> length (prs_str prs') < length (prs_str prs))"
  by (auto simp: EXT_ARGS_Match_def Let_def split: sum.splits prod.splits if_splits
           dest: EXT_ARGS_NextTok_length)

lemma EXT_ARGS_SaveFloatArg_str [simp]:
  "prs_str (EXT_ARGS_SaveFloatArg prs g) = prs_str prs"
  by (simp add: EXT_ARGS_SaveFloatArg_def)

lemma EXT_ARGS_SaveGroup_str [simp]:
  "prs_str (EXT_ARGS_SaveGroup prs h r n) = prs_str prs"
  by (simp add: EXT_ARGS_SaveGroup_def)

lemma EXT_ARGS_SavePosArg_str [simp]:
  "prs_str (EXT_ARGS_SavePosArg prs) = prs_str prs"
  by (simp add: EXT_ARGS_SavePosArg_def)

text \<open>The alias loop of \<^verbatim>\<open>EXT_ARGS_Arg\<close>,
  \<^verbatim>\<open>while(EXT_ARGS_Match(EXT_ARGS_TOK_PIPE, prs, false)) { ... }\<close>: \<open>Some aliasCount\<close> when
  the loop ends, \<open>None\<close> when its body takes the \<^verbatim>\<open>return false\<close>.\<close>

function EXT_ARGS_Arg_aliases ::
  "EXT_ARGS_Parser \<Rightarrow> bool \<Rightarrow> nat \<Rightarrow> nat \<Rightarrow> jmp + (nat option \<times> EXT_ARGS_Parser)" where
  "EXT_ARGS_Arg_aliases prs isMandatory groupIdx aliasCount =
     (case EXT_ARGS_Match EXT_ARGS_TOK_PIPE prs False of
        Inl e \<Rightarrow> Inl e
      | Inr (b1, p1) \<Rightarrow>
          if \<not> b1 then Inr (Some aliasCount, p1)
          else
            (case EXT_ARGS_Match EXT_ARGS_TOK_FLOAT_ARG p1 isMandatory of
               Inl e \<Rightarrow> Inl e
             | Inr (b2, p2) \<Rightarrow>
                 if \<not> b2 then Inr (None, p2)
                 else EXT_ARGS_Arg_aliases (EXT_ARGS_SaveFloatArg p2 groupIdx) isMandatory
                        groupIdx (aliasCount + 1)))"
  by pat_completeness auto
termination
proof (relation "measure (\<lambda>(prs, m, g, n). length (prs_str prs))")
  fix prs :: EXT_ARGS_Parser and isMandatory :: bool and x bp1 b1 p1 y bp2 b2 p2
  assume "EXT_ARGS_Match EXT_ARGS_TOK_PIPE prs False = Inr bp1" "(b1, p1) = bp1" "\<not> \<not> b1"
    "EXT_ARGS_Match EXT_ARGS_TOK_FLOAT_ARG p1 isMandatory = Inr bp2" "(b2, p2) = bp2" "\<not> \<not> b2"
  then have m1: "EXT_ARGS_Match EXT_ARGS_TOK_PIPE prs False = Inr (True, p1)"
    and m2: "EXT_ARGS_Match EXT_ARGS_TOK_FLOAT_ARG p1 isMandatory = Inr (True, p2)"
    by auto
  from EXT_ARGS_Match_length [OF m1] EXT_ARGS_Match_length [OF m2]
  show "((EXT_ARGS_SaveFloatArg p2 groupIdx, isMandatory, groupIdx, aliasCount + 1),
         prs, isMandatory, groupIdx, aliasCount)
        \<in> measure (\<lambda>(prs, m, g, n). length (prs_str prs))" for groupIdx aliasCount
    by simp
qed simp

declare EXT_ARGS_Arg_aliases.simps [simp del]

text \<open>The rest of \<^verbatim>\<open>EXT_ARGS_Arg\<close> after the alias loop, from
  \<^verbatim>\<open>bool hasAssign = false;\<close> on: the value part of a group.\<close>

definition EXT_ARGS_Arg_assign ::
  "EXT_ARGS_Parser \<Rightarrow> nat \<Rightarrow> nat \<Rightarrow> jmp + (bool \<times> EXT_ARGS_Parser)" where
  "EXT_ARGS_Arg_assign p4 groupIdx aliasCount =
     (case EXT_ARGS_AssignVal p4 False of
        Inl e \<Rightarrow> Inl e
      | Inr (b5, p5) \<Rightarrow>
     if b5 then
       (case EXT_ARGS_Match EXT_ARGS_TOK_DOTS p5 False of
          Inl e \<Rightarrow> Inl e
        | Inr (isRepeating, p6) \<Rightarrow>
            Inr (True, EXT_ARGS_SaveGroup p6 True isRepeating aliasCount))
     else
       (let p6 = EXT_ARGS_SaveGroup p5 False False aliasCount;
            bk = prs_str p6
        in
        case EXT_ARGS_Match EXT_ARGS_TOK_LBRAK p6 False of
          Inl e \<Rightarrow> Inl e
        | Inr (b7, p7) \<Rightarrow>
        if \<not> b7 then Inr (True, p7\<lparr>prs_str := bk\<rparr>)
        else
        (case EXT_ARGS_AssignVal p7 False of
           Inl e \<Rightarrow> Inl e
         | Inr (b8, p8) \<Rightarrow>
        if \<not> b8 then Inr (True, p8\<lparr>prs_str := bk\<rparr>)
        else
        (case EXT_ARGS_Match EXT_ARGS_TOK_RBRAK p8 False of
           Inl e \<Rightarrow> Inl e
         | Inr (b9, p9) \<Rightarrow>
        if \<not> b9 then Inr (True, p9\<lparr>prs_str := bk\<rparr>)
        else
          Inr (True,
            p9\<lparr>groups := (groups p9)
                  [groupIdx := (groups p9 ! groupIdx)
                     \<lparr>gr_hasAssign := True, gr_isAssignOptional := True\<rparr>]\<rparr>)))))"

definition EXT_ARGS_Arg ::
  "EXT_ARGS_Parser \<Rightarrow> bool \<Rightarrow> jmp + (bool \<times> EXT_ARGS_Parser)" where
  "EXT_ARGS_Arg prs isMandatory =
     (case EXT_ARGS_Match EXT_ARGS_TOK_NAME prs False of
        Inl e \<Rightarrow> Inl e
      | Inr (b1, p1) \<Rightarrow>
     if b1 then Inr (True, EXT_ARGS_SavePosArg p1)
     else
     (case EXT_ARGS_Match EXT_ARGS_TOK_FLOAT_ARG p1 isMandatory of
        Inl e \<Rightarrow> Inl e
      | Inr (b2, p2) \<Rightarrow>
     if \<not> b2 then Inr (False, p2)
     else
       (let groupIdx = length (groups p2);
            floatBk = length (floats p2);
            p3 = EXT_ARGS_SaveFloatArg p2 groupIdx;
            bk = prs_str p3
        in
        case EXT_ARGS_Arg_aliases p3 isMandatory groupIdx 1 of
          Inl e \<Rightarrow> Inl e
        | Inr (None, p4) \<Rightarrow>
            Inr (False, p4\<lparr>prs_str := bk, floats := take floatBk (floats p4)\<rparr>)
        | Inr (Some aliasCount, p4) \<Rightarrow> EXT_ARGS_Arg_assign p4 groupIdx aliasCount)))"

definition EXT_ARGS_Decl ::
  "EXT_ARGS_Parser \<Rightarrow> bool \<Rightarrow> jmp + (bool \<times> EXT_ARGS_Parser)" where
  "EXT_ARGS_Decl prs isMandatory =
     (case EXT_ARGS_Arg (prs\<lparr>prs_isOptional := False\<rparr>) False of
        Inl e \<Rightarrow> Inl e
      | Inr (b1, p1) \<Rightarrow>
     if b1 then Inr (True, p1)
     else
       (let bk = prs_str p1 in
        case EXT_ARGS_Match EXT_ARGS_TOK_LBRAK p1 isMandatory of
          Inl e \<Rightarrow> Inl e
        | Inr (b2, p2) \<Rightarrow>
        if \<not> b2 then Inr (False, p2)
        else
        (case EXT_ARGS_Arg (p2\<lparr>prs_isOptional := True\<rparr>) isMandatory of
           Inl e \<Rightarrow> Inl e
         | Inr (b3, p3) \<Rightarrow>
        if \<not> b3 then Inr (False, p3\<lparr>prs_str := bk\<rparr>)
        else
        (case EXT_ARGS_Match EXT_ARGS_TOK_RBRAK p3 isMandatory of
           Inl e \<Rightarrow> Inl e
         | Inr (b4, p4) \<Rightarrow>
        if \<not> b4 then Inr (False, p4\<lparr>prs_str := bk\<rparr>)
        else Inr (True, p4)))))"

lemma EXT_ARGS_AssignVal_length:
  "EXT_ARGS_AssignVal prs m = Inr (b, prs') \<Longrightarrow> length (prs_str prs') \<le> length (prs_str prs)"
  unfolding EXT_ARGS_AssignVal_def Let_def
  by (auto split: sum.splits prod.splits bool.splits dest!: EXT_ARGS_Match_length)

lemma EXT_ARGS_Arg_aliases_length:
  "EXT_ARGS_Arg_aliases prs m g n = Inr (r, prs') \<Longrightarrow>
     length (prs_str prs') \<le> length (prs_str prs)"
proof (induction prs m g n rule: EXT_ARGS_Arg_aliases.induct)
  case (1 prs isMandatory groupIdx aliasCount)
  obtain b1 p1 where m1: "EXT_ARGS_Match EXT_ARGS_TOK_PIPE prs False = Inr (b1, p1)"
    using "1.prems" by (cases "EXT_ARGS_Match EXT_ARGS_TOK_PIPE prs False")
      (auto simp: EXT_ARGS_Arg_aliases.simps [of prs])
  note l1 = EXT_ARGS_Match_length [OF m1]
  show ?case
  proof (cases b1)
    case False
    with m1 "1.prems" l1 show ?thesis
      by (auto simp: EXT_ARGS_Arg_aliases.simps [of prs])
  next
    case True
    obtain b2 p2 where m2: "EXT_ARGS_Match EXT_ARGS_TOK_FLOAT_ARG p1 isMandatory = Inr (b2, p2)"
      using "1.prems" m1 True by (cases "EXT_ARGS_Match EXT_ARGS_TOK_FLOAT_ARG p1 isMandatory")
        (auto simp: EXT_ARGS_Arg_aliases.simps [of prs])
    note l2 = EXT_ARGS_Match_length [OF m2]
    show ?thesis
    proof (cases b2)
      case False
      with m1 m2 True "1.prems" l1 l2 show ?thesis
        by (auto simp: EXT_ARGS_Arg_aliases.simps [of prs])
    next
      case b2: True
      from m1 m2 True b2 "1.prems"
      have r: "EXT_ARGS_Arg_aliases (EXT_ARGS_SaveFloatArg p2 groupIdx) isMandatory groupIdx
                 (aliasCount + 1) = Inr (r, prs')"
        by (simp add: EXT_ARGS_Arg_aliases.simps [of prs])
      have "length (prs_str prs') \<le> length (prs_str (EXT_ARGS_SaveFloatArg p2 groupIdx))"
        using "1.IH" [OF m1 refl _ m2 refl _ r] True b2 by simp
      with l1 l2 show ?thesis by simp
    qed
  qed
qed

lemma EXT_ARGS_Arg_assign_length:
  "EXT_ARGS_Arg_assign p4 g n = Inr (b, prs') \<Longrightarrow>
     length (prs_str prs') \<le> length (prs_str p4)"
  unfolding EXT_ARGS_Arg_assign_def Let_def
  by (auto split: sum.splits prod.splits if_splits
           dest!: EXT_ARGS_AssignVal_length EXT_ARGS_Match_length)

lemma EXT_ARGS_Arg_length:
  assumes "EXT_ARGS_Arg prs m = Inr (b, prs')"
  shows "length (prs_str prs') \<le> length (prs_str prs) \<and>
         (\<not> b \<or> length (prs_str prs') < length (prs_str prs))"
proof -
  obtain b1 p1 where m1: "EXT_ARGS_Match EXT_ARGS_TOK_NAME prs False = Inr (b1, p1)"
    using assms by (cases "EXT_ARGS_Match EXT_ARGS_TOK_NAME prs False")
      (auto simp: EXT_ARGS_Arg_def)
  note l1 = EXT_ARGS_Match_length [OF m1]
  show ?thesis
  proof (cases b1)
    case True
    with assms m1 l1 show ?thesis by (auto simp: EXT_ARGS_Arg_def)
  next
    case False
    obtain b2 p2 where m2: "EXT_ARGS_Match EXT_ARGS_TOK_FLOAT_ARG p1 m = Inr (b2, p2)"
      using assms m1 False by (cases "EXT_ARGS_Match EXT_ARGS_TOK_FLOAT_ARG p1 m")
        (auto simp: EXT_ARGS_Arg_def)
    note l2 = EXT_ARGS_Match_length [OF m2]
    show ?thesis
    proof (cases b2)
      case False
      with assms m1 m2 \<open>\<not> b1\<close> l1 l2 show ?thesis by (auto simp: EXT_ARGS_Arg_def)
    next
      case True
      with l1 l2 have lt2: "length (prs_str p2) < length (prs_str prs)" by simp
      define p3 where "p3 = EXT_ARGS_SaveFloatArg p2 (length (groups p2))"
      have s3: "prs_str p3 = prs_str p2" by (simp add: p3_def)
      obtain r p4 where al: "EXT_ARGS_Arg_aliases p3 m (length (groups p2)) 1 = Inr (r, p4)"
        using assms m1 m2 \<open>\<not> b1\<close> True
        by (cases "EXT_ARGS_Arg_aliases p3 m (length (groups p2)) 1")
          (auto simp: EXT_ARGS_Arg_def Let_def p3_def)
      note l4 = EXT_ARGS_Arg_aliases_length [OF al]
      show ?thesis
      proof (cases r)
        case None
        with assms m1 m2 \<open>\<not> b1\<close> True al s3 lt2 show ?thesis
          by (auto simp: EXT_ARGS_Arg_def Let_def p3_def)
      next
        case (Some aliasCount)
        from l4 s3 lt2 have lt4: "length (prs_str p4) < length (prs_str prs)" by simp
        from assms m1 m2 \<open>\<not> b1\<close> True al Some
        have "EXT_ARGS_Arg_assign p4 (length (groups p2)) aliasCount = Inr (b, prs')"
          by (simp add: EXT_ARGS_Arg_def Let_def p3_def)
        from EXT_ARGS_Arg_assign_length [OF this]
        have "length (prs_str prs') \<le> length (prs_str p4)" .
        with lt4 show ?thesis by simp
      qed
    qed
  qed
qed

lemma EXT_ARGS_Decl_shorter:
  assumes "EXT_ARGS_Decl prs m = Inr (True, prs')"
  shows "length (prs_str prs') < length (prs_str prs)"
proof -
  obtain b1 p1 where a1: "EXT_ARGS_Arg (prs\<lparr>prs_isOptional := False\<rparr>) False = Inr (b1, p1)"
    using assms by (cases "EXT_ARGS_Arg (prs\<lparr>prs_isOptional := False\<rparr>) False")
      (auto simp: EXT_ARGS_Decl_def)
  from EXT_ARGS_Arg_length [OF a1]
  have l1: "length (prs_str p1) \<le> length (prs_str prs)"
    and l1': "\<not> b1 \<or> length (prs_str p1) < length (prs_str prs)" by simp_all
  show ?thesis
  proof (cases b1)
    case True
    with assms a1 l1' show ?thesis by (auto simp: EXT_ARGS_Decl_def)
  next
    case False
    from assms a1 False obtain p2 p3
      where m2: "EXT_ARGS_Match EXT_ARGS_TOK_LBRAK p1 m = Inr (True, p2)"
        and a3: "EXT_ARGS_Arg (p2\<lparr>prs_isOptional := True\<rparr>) m = Inr (True, p3)"
        and m4: "EXT_ARGS_Match EXT_ARGS_TOK_RBRAK p3 m = Inr (True, prs')"
      by (auto simp: EXT_ARGS_Decl_def Let_def split: sum.splits prod.splits if_splits)
    from EXT_ARGS_Match_length [OF m2] EXT_ARGS_Arg_length [OF a3]
      EXT_ARGS_Match_length [OF m4] l1
    show ?thesis by simp
  qed
qed

text \<open>\<^verbatim>\<open>while(EXT_ARGS_Decl(prs, false));\<close>\<close>

function EXT_ARGS_Decls :: "EXT_ARGS_Parser \<Rightarrow> jmp + EXT_ARGS_Parser" where
  "EXT_ARGS_Decls prs =
     (case EXT_ARGS_Decl prs False of
        Inl e \<Rightarrow> Inl e
      | Inr (b, p) \<Rightarrow> if b then EXT_ARGS_Decls p else Inr p)"
  by pat_completeness auto
termination
proof (relation "measure (\<lambda>prs. length (prs_str prs))")
  fix prs :: EXT_ARGS_Parser and x bp b p
  assume "EXT_ARGS_Decl prs False = Inr bp" "(b, p) = bp" "b"
  then have "EXT_ARGS_Decl prs False = Inr (True, p)" by auto
  from EXT_ARGS_Decl_shorter [OF this]
  show "(p, prs) \<in> measure (\<lambda>prs. length (prs_str prs))" by simp
qed simp

declare EXT_ARGS_Decls.simps [simp del]

definition EXT_ARGS_Synopsis :: "EXT_ARGS_Parser \<Rightarrow> jmp + EXT_ARGS_Parser" where
  "EXT_ARGS_Synopsis prs =
     (case EXT_ARGS_Decls prs of
        Inl e \<Rightarrow> Inl e
      | Inr p1 \<Rightarrow>
     (case EXT_ARGS_Match EXT_ARGS_TOK_DOTS p1 False of
        Inl e \<Rightarrow> Inl e
      | Inr (b2, p2) \<Rightarrow>
     (let p3 = (if b2 then p2\<lparr>varPosArgsEnabled := True\<rparr> else p2) in
      case EXT_ARGS_Match EXT_ARGS_TOK_EOI p3 True of
        Inl e \<Rightarrow> Inl e
      | Inr (b4, p4) \<Rightarrow> Inr p4)))"

definition EXT_ARGS_TokTypeToName :: "tok_type \<Rightarrow> string" where
  "EXT_ARGS_TokTypeToName type =
     (case type of
        EXT_ARGS_TOK_EOI \<Rightarrow> ''EOI''
      | EXT_ARGS_TOK_LBRAK \<Rightarrow> ''LBRAK''
      | EXT_ARGS_TOK_RBRAK \<Rightarrow> ''RBRAK''
      | EXT_ARGS_TOK_PIPE \<Rightarrow> ''PIPE''
      | EXT_ARGS_TOK_EQL \<Rightarrow> ''EQL''
      | EXT_ARGS_TOK_NAME \<Rightarrow> ''NAME''
      | EXT_ARGS_TOK_FLOAT_ARG \<Rightarrow> ''FLOAT_ARG''
      | EXT_ARGS_TOK_DOTS \<Rightarrow> ''DOTS'')"

text \<open>\<^verbatim>\<open>EXT_ARGS_Parser prs = {.str = fmt}\<close>: every other field is zero.\<close>

definition init_parser :: "string \<Rightarrow> EXT_ARGS_Parser" where
  "init_parser fmt =
     \<lparr>prs_str = fmt, prs_isOptional = False,
      lastMatchTok = \<lparr>tok_type = EXT_ARGS_TOK_EOI, tok_str = NULL, tok_len = 0\<rparr>,
      posArgs = [], groups = [], floats = [], sequence = [],
      varPosArgsEnabled = False, varPosrArgsVarPtr = None\<rparr>"

section \<open>The user's input\<close>

datatype utok_type =
    EXT_ARGS_UTOK_FLOAT
  | EXT_ARGS_UTOK_EQL
  | EXT_ARGS_UTOK_VAL
  | EXT_ARGS_UTOK_EOI

record EXT_ARGS_UTok =
  utok_type :: utok_type
  utok_str :: cptr
  utok_len :: nat

record EXT_ARGS_UFloatArg =
  uf_str :: cptr
  uf_len :: nat
  uf_assignVal :: cptr

datatype res =
    EXT_ARGS_NO_ERR
  | EXT_ARGS_NO_MEM_ERR
  | EXT_ARGS_SCHEMA_ERR
  | EXT_ARGS_INPUT_ERR

text \<open>How a block of \<^verbatim>\<open>ext_args\<close> is left early: \<open>Err res msg\<close> is
  \<^verbatim>\<open>res = ...; *oerr = EXT_ARGS_FmtErr(...); goto done;\<close>, and \<open>UB\<close> is a step whose
  behaviour C leaves undefined (\<^verbatim>\<open>va_arg\<close> past the last argument, an array read or
  written out of range).\<close>

datatype abort = Err res string | UB

text \<open>The characters a non-null \<^verbatim>\<open>char *\<close> points to, as \<^verbatim>\<open>%s\<close> and
  \<^verbatim>\<open>strncmp\<close> read them. The pointers read this way in \<^verbatim>\<open>ext_args\<close> are the
  \<^verbatim>\<open>str\<close> of flag, name, equals and value tokens, which are never \<open>NULL\<close>.\<close>

definition chars_of :: "cptr \<Rightarrow> string" where
  "chars_of p = (case p of Ptr s \<Rightarrow> s | ext_args_no_value \<Rightarrow> ''(NO VALUE)'' | NULL \<Rightarrow> [])"

text \<open>\<^verbatim>\<open>strncmp(a, b, n) == 0\<close> on strings without embedded NUL.\<close>

definition strncmp_eq :: "cptr \<Rightarrow> cptr \<Rightarrow> nat \<Rightarrow> bool" where
  "strncmp_eq a b n = (take n (chars_of a) = take n (chars_of b))"

definition dquote :: string where
  "dquote = [CHR 0x22]"

subsection \<open>Lexing (lines 770--816)\<close>

text \<open>The body of the loop over \<^verbatim>\<open>argv[1..argc-1]\<close> for one raw argument \<open>bk\<close>: the
  tokens it saves, and whether it leaves the loop by \<^verbatim>\<open>break\<close>. The equals token points at
  \<^verbatim>\<open>str - 1\<close>, the \<^verbatim>\<open>=\<close> just read.\<close>

definition lex_arg :: "string \<Rightarrow> abort + (EXT_ARGS_UTok list \<times> bool)" where
  "lex_arg bk =
     (case EXT_ARGS_ArgFloat bk of
        (True, s) \<Rightarrow>
          (let t = \<lparr>utok_type = EXT_ARGS_UTOK_FLOAT, utok_str = Ptr bk,
                    utok_len = length bk - length s\<rparr>
           in case EXT_ARGS_Char (CHR ''='') s of
                (True, str) \<Rightarrow>
                  Inr ([t, \<lparr>utok_type = EXT_ARGS_UTOK_EQL, utok_str = Ptr (CHR ''='' # str),
                             utok_len = 0\<rparr>]
                       @ (if deref str \<noteq> CHR 0x00
                          then [\<lparr>utok_type = EXT_ARGS_UTOK_VAL, utok_str = Ptr str, utok_len = 0\<rparr>]
                          else []),
                       False)
              | (False, str) \<Rightarrow>
                  if deref str \<noteq> CHR 0x00
                  then Inl (Err EXT_ARGS_INPUT_ERR (''Ambiguous argument '' @ dquote @ bk @ dquote))
                  else Inr ([t], False))
      | (False, ipr) \<Rightarrow>
          (case EXT_ARGS_Char (CHR ''='') ipr of
             (True, str) \<Rightarrow>
               Inr ([\<lparr>utok_type = EXT_ARGS_UTOK_EQL, utok_str = Ptr (CHR ''='' # str),
                       utok_len = 0\<rparr>]
                    @ (if deref str \<noteq> CHR 0x00
                       then [\<lparr>utok_type = EXT_ARGS_UTOK_VAL, utok_str = Ptr str, utok_len = 0\<rparr>]
                       else []),
                    False)
           | (False, ipr) \<Rightarrow>
               (case EXT_ARGS_Char (CHR ''-'') ipr of
                  (True, ipr1) \<Rightarrow>
                    (case EXT_ARGS_Char (CHR ''-'') ipr1 of
                       (True, ipr2) \<Rightarrow>
                         Inr ([\<lparr>utok_type = EXT_ARGS_UTOK_EOI, utok_str = NULL, utok_len = 0\<rparr>],
                              True)
                     | (False, ipr2) \<Rightarrow>
                         Inr ([\<lparr>utok_type = EXT_ARGS_UTOK_VAL, utok_str = Ptr bk, utok_len = 0\<rparr>],
                              False))
                | (False, ipr1) \<Rightarrow>
                    Inr ([\<lparr>utok_type = EXT_ARGS_UTOK_VAL, utok_str = Ptr bk, utok_len = 0\<rparr>],
                         False))))"

text \<open>The loop itself, over the raw arguments still to read, with \<^verbatim>\<open>inp->tokens\<close>.\<close>

fun lex_args :: "string list \<Rightarrow> EXT_ARGS_UTok list \<Rightarrow> abort + EXT_ARGS_UTok list" where
  "lex_args [] tokens = Inr tokens"
| "lex_args (bk # rest) tokens =
     (case lex_arg bk of
        Inl a \<Rightarrow> Inl a
      | Inr (ts, brk) \<Rightarrow> if brk then Inr (tokens @ ts) else lex_args rest (tokens @ ts))"

text \<open>The loop starts at \<^verbatim>\<open>i = 1\<close>; then the closing end-of-input token is saved unless
  the last token is one already.\<close>

definition lex_input :: "string list \<Rightarrow> abort + EXT_ARGS_UTok list" where
  "lex_input argv =
     (case lex_args (drop 1 argv) [] of
        Inl a \<Rightarrow> Inl a
      | Inr tokens \<Rightarrow>
          if length tokens = 0 \<or> utok_type (last tokens) \<noteq> EXT_ARGS_UTOK_EOI
          then Inr (tokens @ [\<lparr>utok_type = EXT_ARGS_UTOK_EOI, utok_str = NULL, utok_len = 0\<rparr>])
          else Inr tokens)"

subsection \<open>Parsing (lines 820--864)\<close>

text \<open>The index \<^verbatim>\<open>i\<close> into \<^verbatim>\<open>inp->tokens\<close> is the list of tokens from \<^verbatim>\<open>i\<close> on;
  reading past the last token is \<open>UB\<close>. The result is \<^verbatim>\<open>inp->floats\<close> and
  \<^verbatim>\<open>inp->posArgs\<close>. The test after the loop (line 860) cannot fail, since the loop is only
  left at an end-of-input token.\<close>

fun parse_tokens ::
  "EXT_ARGS_UTok list \<Rightarrow> EXT_ARGS_UFloatArg list \<Rightarrow> cptr list \<Rightarrow>
     abort + (EXT_ARGS_UFloatArg list \<times> cptr list)" where
  "parse_tokens [] fl pa = Inl UB"
| "parse_tokens (t # ts) fl pa =
     (if utok_type t = EXT_ARGS_UTOK_EOI then Inr (fl, pa)
      else if utok_type t = EXT_ARGS_UTOK_FLOAT then
        (case ts of
           [] \<Rightarrow> Inl UB
         | t1 # ts1 \<Rightarrow>
             if utok_type t1 = EXT_ARGS_UTOK_EQL then
               (case ts1 of
                  [] \<Rightarrow> Inl UB
                | t2 # ts2 \<Rightarrow>
                    if utok_type t2 \<noteq> EXT_ARGS_UTOK_VAL
                    then Inl (Err EXT_ARGS_INPUT_ERR
                           (''A value expected '' @ dquote @ chars_of (utok_str t) @ dquote))
                    else parse_tokens ts2
                           (fl @ [\<lparr>uf_str = utok_str t, uf_len = utok_len t,
                                   uf_assignVal = utok_str t2\<rparr>]) pa)
             else parse_tokens ts
                    (fl @ [\<lparr>uf_str = utok_str t, uf_len = utok_len t, uf_assignVal = NULL\<rparr>]) pa)
      else if utok_type t = EXT_ARGS_UTOK_VAL then parse_tokens ts fl (pa @ [utok_str t])
      else Inl (Err EXT_ARGS_INPUT_ERR
             (''Unexpected input '' @ dquote @ chars_of (utok_str t) @ dquote)))"

section \<open>Validation (lines 868--951)\<close>

text \<open>The inner loop of the first validation, over \<^verbatim>\<open>prs.floats\<close>, for one flag
  occurrence \<open>uf\<close>: \<open>found\<close> and the groups as the loop leaves them.\<close>

fun validate_float ::
  "EXT_ARGS_UFloatArg \<Rightarrow> EXT_ARGS_FloatArg list \<Rightarrow> EXT_ARGS_FloatArgsGroup list \<Rightarrow>
     abort + (bool \<times> EXT_ARGS_FloatArgsGroup list)" where
  "validate_float uf [] gs = Inr (False, gs)"
| "validate_float uf (f # fs) gs =
     (if uf_len uf \<noteq> fa_len f then validate_float uf fs gs
      else if strncmp_eq (uf_str uf) (fa_str f) (fa_len f) then
        (if \<not> fa_groupIdx f < length gs then Inl UB
         else
           (let gr = gs ! fa_groupIdx f in
            if gr_isUsed gr \<and> \<not> gr_isRepeating gr then
              Inl (Err EXT_ARGS_INPUT_ERR
                (''Same arguments provided multiple times: ''
                 @ take (uf_len uf) (chars_of (uf_str uf))))
            else if gr_hasAssign gr \<and> uf_assignVal uf = NULL \<and> \<not> gr_isAssignOptional gr then
              Inl (Err EXT_ARGS_INPUT_ERR
                (dquote @ take (uf_len uf) (chars_of (uf_str uf)) @ dquote
                 @ '' argument requires a value''))
            else if \<not> gr_hasAssign gr \<and> uf_assignVal uf \<noteq> NULL then
              Inl (Err EXT_ARGS_INPUT_ERR
                (dquote @ take (uf_len uf) (chars_of (uf_str uf)) @ dquote
                 @ '' argument does not require a value''))
            else Inr (True, gs[fa_groupIdx f := gr\<lparr>gr_isUsed := True\<rparr>])))
      else validate_float uf fs gs)"

text \<open>The outer loop, over \<^verbatim>\<open>inp->floats\<close>.\<close>

fun validate_floats ::
  "EXT_ARGS_UFloatArg list \<Rightarrow> EXT_ARGS_FloatArg list \<Rightarrow> EXT_ARGS_FloatArgsGroup list \<Rightarrow>
     abort + EXT_ARGS_FloatArgsGroup list" where
  "validate_floats [] fs gs = Inr gs"
| "validate_floats (uf # ufs) fs gs =
     (case validate_float uf fs gs of
        Inl a \<Rightarrow> Inl a
      | Inr (found, gs') \<Rightarrow>
          if \<not> found then
            Inl (Err EXT_ARGS_INPUT_ERR
              (''Ambiguous argument '' @ dquote @ take (uf_len uf) (chars_of (uf_str uf))
               @ dquote @ '' provided''))
          else validate_floats ufs fs gs')"

text \<open>Checking floats that are specified but not provided: the inner loop finds the first
  alias of group \<open>i\<close>, the outer loop runs over the groups from index \<open>i\<close> on.\<close>

fun first_alias :: "EXT_ARGS_FloatArg list \<Rightarrow> nat \<Rightarrow> EXT_ARGS_FloatArg option" where
  "first_alias [] i = None"
| "first_alias (fa # fs) i = (if fa_groupIdx fa = i then Some fa else first_alias fs i)"

fun check_provided ::
  "EXT_ARGS_FloatArgsGroup list \<Rightarrow> nat \<Rightarrow> EXT_ARGS_FloatArg list \<Rightarrow> abort option" where
  "check_provided [] i fs = None"
| "check_provided (gr # grs) i fs =
     (if \<not> gr_isUsed gr \<and> \<not> gr_isOptional gr then
        (case first_alias fs i of
           Some fa \<Rightarrow>
             Some (Err EXT_ARGS_INPUT_ERR
               (dquote @ take (fa_len fa) (chars_of (fa_str fa)) @ dquote @ '' argument ''
                @ (if gr_aliasCount gr > 1 then ''(or alias) '' else [])
                @ ''required but not provided''))
         | None \<Rightarrow> check_provided grs (i + 1) fs)
      else check_provided grs (i + 1) fs)"

definition manposArgsCount :: "EXT_ARGS_PosArg list \<Rightarrow> nat" where
  "manposArgsCount pas = length (filter (\<lambda>pa. \<not> pa_isOptional pa) pas)"

definition check_posArgs :: "EXT_ARGS_Parser \<Rightarrow> cptr list \<Rightarrow> abort option" where
  "check_posArgs prs inp_posArgs =
     (if length inp_posArgs < manposArgsCount (posArgs prs) then
        Some (Err EXT_ARGS_INPUT_ERR ''Not enough positional arguments provided'')
      else if \<not> varPosArgsEnabled prs \<and> length inp_posArgs > length (posArgs prs) then
        Some (Err EXT_ARGS_INPUT_ERR ''Too many positional arguments provided'')
      else None)"

section \<open>Binding (lines 953--1088)\<close>

text \<open>The caller's memory is a store from addresses to objects; the variadic arguments
  \<^verbatim>\<open>ap\<close> are the list of the pointers passed, \<open>None\<close> for a null pointer. A
  \<^verbatim>\<open>char **\<close> variable holds the initialised contents of the array it points to. Beside
  the three kinds of variables that \<^verbatim>\<open>ext_args\<close> stores into, the memory holds character
  arrays (\<open>VChars\<close>, as the schema string and the strings of \<^verbatim>\<open>argv\<close>) and arrays of addresses
  of character arrays (\<open>VPtrs\<close>, as \<^verbatim>\<open>argv\<close> itself).\<close>

datatype cval = VBool bool | VStr cptr | VAry "cptr list" | VChars string | VPtrs "addr list"

type_synonym mem = "addr \<Rightarrow> cval"

definition store :: "addr option \<Rightarrow> cval \<Rightarrow> mem \<Rightarrow> mem" where
  "store p v m = (case p of None \<Rightarrow> m | Some a \<Rightarrow> m(a := v))"

text \<open>Get pointers to user passed vars: one \<^verbatim>\<open>va_arg\<close> for each element of
  \<^verbatim>\<open>prs.sequence\<close>, and one more for the variadic positional arguments. This block and
  the filling after it have no error exit; \<open>None\<close> is undefined behaviour
  (\<^verbatim>\<open>va_arg\<close> past the last argument passed, an index out of range).\<close>

fun get_var_ptrs ::
  "EXT_ARGS_SequenceElement list \<Rightarrow> addr option list \<Rightarrow> EXT_ARGS_Parser \<Rightarrow>
     (EXT_ARGS_Parser \<times> addr option list) option" where
  "get_var_ptrs [] ap prs = Some (prs, ap)"
| "get_var_ptrs (sq # sqs) ap prs =
     (case ap of
        [] \<Rightarrow> None
      | p # ap' \<Rightarrow>
          if sq_type sq = EXT_ARGS_ARG_POS then
            (if \<not> sq_idx sq < length (posArgs prs) then None
             else get_var_ptrs sqs ap'
                    (prs\<lparr>posArgs := (posArgs prs)
                           [sq_idx sq := (posArgs prs ! sq_idx sq)\<lparr>pa_varPtr := p\<rparr>]\<rparr>))
          else
            (if \<not> sq_idx sq < length (groups prs) then None
             else get_var_ptrs sqs ap'
                    (prs\<lparr>groups := (groups prs)
                           [sq_idx sq := (groups prs ! sq_idx sq)\<lparr>gr_varPtr := p\<rparr>]\<rparr>)))"

definition get_all_var_ptrs :: "addr option list \<Rightarrow> EXT_ARGS_Parser \<Rightarrow> EXT_ARGS_Parser option" where
  "get_all_var_ptrs ap prs =
     (case get_var_ptrs (sequence prs) ap prs of
        None \<Rightarrow> None
      | Some (prs', ap') \<Rightarrow>
          if varPosArgsEnabled prs' then
            (case ap' of
               [] \<Rightarrow> None
             | p # _ \<Rightarrow> Some (prs'\<lparr>varPosrArgsVarPtr := p\<rparr>))
          else Some prs')"

text \<open>Vars filling (lines 970--1010): the inner loop for one flag occurrence. For a repeating
  group the value is saved into \<^verbatim>\<open>gr->ary\<close>, a \<open>NULL\<close> is put after it, and the array is
  what the caller's variable then points to.\<close>

fun fill_float ::
  "EXT_ARGS_UFloatArg \<Rightarrow> EXT_ARGS_FloatArg list \<Rightarrow> EXT_ARGS_FloatArgsGroup list \<Rightarrow> mem \<Rightarrow>
     (EXT_ARGS_FloatArgsGroup list \<times> mem) option" where
  "fill_float uf [] gs m = Some (gs, m)"
| "fill_float uf (f # fs) gs m =
     (if uf_len uf \<noteq> fa_len f then fill_float uf fs gs m
      else if strncmp_eq (uf_str uf) (fa_str f) (fa_len f) then
        (if \<not> fa_groupIdx f < length gs then None
         else
           (let gr = gs ! fa_groupIdx f in
            if gr_isRepeating gr then
              (let ary = gr_ary gr @ [uf_assignVal uf] in
               Some (gs[fa_groupIdx f := gr\<lparr>gr_ary := ary\<rparr>],
                    store (gr_varPtr gr) (VAry (ary @ [NULL])) m))
            else if gr_hasAssign gr then
              (if uf_assignVal uf \<noteq> NULL
               then Some (gs, store (gr_varPtr gr) (VStr (uf_assignVal uf)) m)
               else Some (gs, store (gr_varPtr gr) (VStr ext_args_no_value) m))
            else Some (gs, store (gr_varPtr gr) (VBool True) m)))
      else fill_float uf fs gs m)"

fun fill_floats ::
  "EXT_ARGS_UFloatArg list \<Rightarrow> EXT_ARGS_FloatArg list \<Rightarrow> EXT_ARGS_FloatArgsGroup list \<Rightarrow> mem \<Rightarrow>
     (EXT_ARGS_FloatArgsGroup list \<times> mem) option" where
  "fill_floats [] fs gs m = Some (gs, m)"
| "fill_floats (uf # ufs) fs gs m =
     (case fill_float uf fs gs m of
        None \<Rightarrow> None
      | Some (gs', m') \<Rightarrow> fill_floats ufs fs gs' m')"

text \<open>Filling floats that are specified but not provided (lines 1012--1033). For a repeating
  group a single \<open>NULL\<close> is saved into the array, which is then what the variable points to.\<close>

fun fill_not_provided :: "EXT_ARGS_FloatArgsGroup list \<Rightarrow> mem \<Rightarrow> mem" where
  "fill_not_provided [] m = m"
| "fill_not_provided (gr # grs) m =
     (if \<not> gr_isUsed gr \<and> gr_isOptional gr then
        (if gr_isRepeating gr then
           fill_not_provided grs (store (gr_varPtr gr) (VAry (gr_ary gr @ [NULL])) m)
         else if gr_hasAssign gr then
           fill_not_provided grs (store (gr_varPtr gr) (VStr NULL) m)
         else fill_not_provided grs (store (gr_varPtr gr) (VBool False) m))
      else fill_not_provided grs m)"

text \<open>NULLing optionals not provided by the user (lines 1036--1041, and again 1070--1075):
  applied to the positional arguments from index \<^verbatim>\<open>inp->posArgsCount\<close> on.\<close>

fun null_posArgs :: "EXT_ARGS_PosArg list \<Rightarrow> mem \<Rightarrow> mem" where
  "null_posArgs [] m = m"
| "null_posArgs (pa # pas) m = null_posArgs pas (store (pa_varPtr pa) (VStr NULL) m)"

text \<open>Filling posArgs vars (lines 1046--1066): the loop over the positional values from index
  \<open>i\<close> on, with \<^verbatim>\<open>optsVarAry->ary\<close> (empty while the pointer is null).\<close>

fun fill_posArgs ::
  "nat \<Rightarrow> cptr list \<Rightarrow> EXT_ARGS_Parser \<Rightarrow> cptr list \<Rightarrow> mem \<Rightarrow> cptr list \<times> mem" where
  "fill_posArgs i [] prs opts m = (opts, m)"
| "fill_posArgs i (v # vs) prs opts m =
     (if i < length (posArgs prs) then
        fill_posArgs (i + 1) vs prs opts (store (pa_varPtr (posArgs prs ! i)) (VStr v) m)
      else if varPosrArgsVarPtr prs = None then (opts, m)
      else
        (let ary = opts @ [v] in
         fill_posArgs (i + 1) vs prs ary
           (store (varPosrArgsVarPtr prs) (VAry (ary @ [NULL])) m)))"

definition fill_vars ::
  "EXT_ARGS_Parser \<Rightarrow> EXT_ARGS_UFloatArg list \<Rightarrow> cptr list \<Rightarrow> mem \<Rightarrow> mem option" where
  "fill_vars prs inp_floats inp_posArgs m =
     (case fill_floats inp_floats (floats prs) (groups prs) m of
        None \<Rightarrow> None
      | Some (gs, m1) \<Rightarrow>
          (let m2 = fill_not_provided gs m1;
               m3 = null_posArgs (drop (length inp_posArgs) (posArgs prs)) m2;
               (opts, m4) = fill_posArgs 0 inp_posArgs prs [] m3;
               m5 = null_posArgs (drop (length inp_posArgs) (posArgs prs)) m4
           in if varPosArgsEnabled prs \<and> opts = []
              then Some (store (varPosrArgsVarPtr prs) (VAry [NULL]) m5)
              else Some m5))"

section \<open>The entry point\<close>

text \<open>Additional schema validations (lines 754--764): is there an optional positional
  argument directly followed by a mandatory one?\<close>

fun optional_before_mandatory :: "EXT_ARGS_PosArg list \<Rightarrow> bool" where
  "optional_before_mandatory (a # b # rest) =
     (if pa_isOptional a \<and> \<not> pa_isOptional b then True
      else optional_before_mandatory (b # rest))"
| "optional_before_mandatory [a] = False"
| "optional_before_mandatory [] = False"

text \<open>What a call leaves behind: the value returned, what was stored into \<^verbatim>\<open>*oerr\<close>
  (\<open>None\<close> when nothing was) and the caller's variables; or undefined behaviour.\<close>

datatype outcome = Return res "cptr option" mem | Undefined

text \<open>Lines 766--951 of \<^verbatim>\<open>ext_args\<close>, on the schema parsed into \<open>prs\<close>: lexing and parsing
  of the input and the validations, none of which reads \<^verbatim>\<open>ap\<close> or stores into a variable
  of the caller. \<^verbatim>\<open>argv\<close> is the list of its \<^verbatim>\<open>argc\<close> elements. The result is the parser
  with the groups marked as used, \<^verbatim>\<open>inp->floats\<close> and \<^verbatim>\<open>inp->posArgs\<close>.\<close>

definition read_input ::
  "EXT_ARGS_Parser \<Rightarrow> string list \<Rightarrow>
     abort + (EXT_ARGS_Parser \<times> EXT_ARGS_UFloatArg list \<times> cptr list)" where
  "read_input prs argv =
     (case lex_input argv of
        Inl a \<Rightarrow> Inl a
      | Inr tokens \<Rightarrow>
     (case parse_tokens tokens [] [] of
        Inl a \<Rightarrow> Inl a
      | Inr (inp_floats, inp_posArgs) \<Rightarrow>
     (case validate_floats inp_floats (floats prs) (groups prs) of
        Inl a \<Rightarrow> Inl a
      | Inr gs \<Rightarrow>
     (let prs1 = prs\<lparr>groups := gs\<rparr> in
      case check_provided (groups prs1) 0 (floats prs1) of
        Some a \<Rightarrow> Inl a
      | None \<Rightarrow>
     (case check_posArgs prs1 inp_posArgs of
        Some a \<Rightarrow> Inl a
      | None \<Rightarrow> Inr (prs1, inp_floats, inp_posArgs))))))"

text \<open>Lines 766--1088: the input is read and validated, then the pointers are taken from
  \<^verbatim>\<open>ap\<close> and the variables filled. The result is how the block is left (\<open>None\<close> when it
  runs to \<^verbatim>\<open>done\<close> with \<^verbatim>\<open>res\<close> unchanged) and the caller's variables at that point.\<close>

definition match_input ::
  "EXT_ARGS_Parser \<Rightarrow> string list \<Rightarrow> addr option list \<Rightarrow> mem \<Rightarrow> abort option \<times> mem" where
  "match_input prs argv ap m =
     (case read_input prs argv of
        Inl a \<Rightarrow> (Some a, m)
      | Inr (prs1, inp_floats, inp_posArgs) \<Rightarrow>
     (case get_all_var_ptrs ap prs1 of
        None \<Rightarrow> (Some UB, m)
      | Some prs2 \<Rightarrow>
     (case fill_vars prs2 inp_floats inp_posArgs m of
        None \<Rightarrow> (Some UB, m)
      | Some m' \<Rightarrow> (None, m'))))"

definition ext_args :: "string list \<Rightarrow> string \<Rightarrow> addr option list \<Rightarrow> mem \<Rightarrow> outcome" where
  "ext_args argv fmt ap m =
     (case EXT_ARGS_Synopsis (init_parser fmt) of
        Inl (EXT_ARGS_ERR_LEX errStart) \<Rightarrow>
          Return EXT_ARGS_SCHEMA_ERR
            (Some (Ptr (''Schema lexing error, starting from '' @ dquote @ errStart @ dquote))) m
      | Inl (EXT_ARGS_ERR_PARSE expTokType unexpTokType errStart) \<Rightarrow>
          Return EXT_ARGS_SCHEMA_ERR
            (Some (Ptr (''Schema parsing error. Expected '' @ EXT_ARGS_TokTypeToName expTokType
                        @ '' but received '' @ EXT_ARGS_TokTypeToName unexpTokType
                        @ '', starting from '' @ dquote @ errStart @ dquote))) m
      | Inl EXT_ARGS_ERR_MEM \<Rightarrow> Return EXT_ARGS_NO_MEM_ERR (Some NULL) m
      | Inr prs \<Rightarrow>
          if optional_before_mandatory (posArgs prs) then
            Return EXT_ARGS_SCHEMA_ERR
              (Some (Ptr ''All optional non-flag arguments must be chained on the schema's right side''))
              m
          else
            (case match_input prs argv ap m of
               (Some (Err r msg), m') \<Rightarrow> Return r (Some (Ptr msg)) m'
             | (Some UB, m') \<Rightarrow> Undefined
             | (None, m') \<Rightarrow> Return EXT_ARGS_NO_ERR None m'))"

section \<open>Example schemas and an example store\<close>

text \<open>The parser state that \<^verbatim>\<open>EXT_ARGS_Synopsis\<close> leaves for the schemas used below, and a
  store in which every variable of the caller holds \<^verbatim>\<open>false\<close>.\<close>

definition mem0 :: mem where
  "mem0 a = VBool False"

definition schema_a_b_dots :: EXT_ARGS_Parser where
  "schema_a_b_dots =
     \<lparr>prs_str = [], prs_isOptional = False,
      lastMatchTok = \<lparr>tok_type = EXT_ARGS_TOK_EOI, tok_str = NULL, tok_len = 0\<rparr>,
      posArgs =
        [\<lparr>pa_isOptional = False, pa_str = Ptr ''a [b] ...'', pa_len = 1, pa_varPtr = None\<rparr>,
         \<lparr>pa_isOptional = True, pa_str = Ptr ''b] ...'', pa_len = 1, pa_varPtr = None\<rparr>],
      groups = [],
      floats = [],
      sequence =
        [\<lparr>sq_type = EXT_ARGS_ARG_POS, sq_idx = 0\<rparr>,
         \<lparr>sq_type = EXT_ARGS_ARG_POS, sq_idx = 1\<rparr>],
      varPosArgsEnabled = True, varPosrArgsVarPtr = None\<rparr>"

definition schema_D_rep :: EXT_ARGS_Parser where
  "schema_D_rep =
     \<lparr>prs_str = [], prs_isOptional = False,
      lastMatchTok = \<lparr>tok_type = EXT_ARGS_TOK_EOI, tok_str = NULL, tok_len = 0\<rparr>,
      posArgs = [],
      groups =
        [\<lparr>gr_isOptional = False, gr_hasAssign = True, gr_isAssignOptional = False, gr_isRepeating = True,
          gr_aliasCount = 1, gr_varPtr = None, gr_isUsed = False, gr_ary = []\<rparr>],
      floats =
        [\<lparr>fa_str = Ptr ''-D=val...'', fa_len = 2, fa_groupIdx = 0\<rparr>],
      sequence =
        [\<lparr>sq_type = EXT_ARGS_ARG_GROUP, sq_idx = 0\<rparr>],
      varPosArgsEnabled = False, varPosrArgsVarPtr = None\<rparr>"

definition schema_opt_D_rep :: EXT_ARGS_Parser where
  "schema_opt_D_rep =
     \<lparr>prs_str = [], prs_isOptional = False,
      lastMatchTok = \<lparr>tok_type = EXT_ARGS_TOK_EOI, tok_str = NULL, tok_len = 0\<rparr>,
      posArgs = [],
      groups =
        [\<lparr>gr_isOptional = True, gr_hasAssign = True, gr_isAssignOptional = False, gr_isRepeating = True,
          gr_aliasCount = 1, gr_varPtr = None, gr_isUsed = False, gr_ary = []\<rparr>],
      floats =
        [\<lparr>fa_str = Ptr ''-D=val...]'', fa_len = 2, fa_groupIdx = 0\<rparr>],
      sequence =
        [\<lparr>sq_type = EXT_ARGS_ARG_GROUP, sq_idx = 0\<rparr>],
      varPosArgsEnabled = False, varPosrArgsVarPtr = None\<rparr>"

definition schema_a_optval :: EXT_ARGS_Parser where
  "schema_a_optval =
     \<lparr>prs_str = [], prs_isOptional = False,
      lastMatchTok = \<lparr>tok_type = EXT_ARGS_TOK_EOI, tok_str = NULL, tok_len = 0\<rparr>,
      posArgs = [],
      groups =
        [\<lparr>gr_isOptional = False, gr_hasAssign = True, gr_isAssignOptional = True, gr_isRepeating = False,
          gr_aliasCount = 1, gr_varPtr = None, gr_isUsed = False, gr_ary = []\<rparr>],
      floats =
        [\<lparr>fa_str = Ptr ''-a[=val]'', fa_len = 2, fa_groupIdx = 0\<rparr>],
      sequence =
        [\<lparr>sq_type = EXT_ARGS_ARG_GROUP, sq_idx = 0\<rparr>],
      varPosArgsEnabled = False, varPosrArgsVarPtr = None\<rparr>"

definition schema_opt_a_optval :: EXT_ARGS_Parser where
  "schema_opt_a_optval =
     \<lparr>prs_str = [], prs_isOptional = False,
      lastMatchTok = \<lparr>tok_type = EXT_ARGS_TOK_EOI, tok_str = NULL, tok_len = 0\<rparr>,
      posArgs = [],
      groups =
        [\<lparr>gr_isOptional = True, gr_hasAssign = True, gr_isAssignOptional = True, gr_isRepeating = False,
          gr_aliasCount = 1, gr_varPtr = None, gr_isUsed = False, gr_ary = []\<rparr>],
      floats =
        [\<lparr>fa_str = Ptr ''-a[=val]]'', fa_len = 2, fa_groupIdx = 0\<rparr>],
      sequence =
        [\<lparr>sq_type = EXT_ARGS_ARG_GROUP, sq_idx = 0\<rparr>],
      varPosArgsEnabled = False, varPosrArgsVarPtr = None\<rparr>"

definition schema_opt_a_opt_b :: EXT_ARGS_Parser where
  "schema_opt_a_opt_b =
     \<lparr>prs_str = [], prs_isOptional = False,
      lastMatchTok = \<lparr>tok_type = EXT_ARGS_TOK_EOI, tok_str = NULL, tok_len = 0\<rparr>,
      posArgs =
        [\<lparr>pa_isOptional = True, pa_str = Ptr ''a] [b]'', pa_len = 1, pa_varPtr = None\<rparr>,
         \<lparr>pa_isOptional = True, pa_str = Ptr ''b]'', pa_len = 1, pa_varPtr = None\<rparr>],
      groups = [],
      floats = [],
      sequence =
        [\<lparr>sq_type = EXT_ARGS_ARG_POS, sq_idx = 0\<rparr>,
         \<lparr>sq_type = EXT_ARGS_ARG_POS, sq_idx = 1\<rparr>],
      varPosArgsEnabled = False, varPosrArgsVarPtr = None\<rparr>"

definition schema_opt_a_val :: EXT_ARGS_Parser where
  "schema_opt_a_val =
     \<lparr>prs_str = [], prs_isOptional = False,
      lastMatchTok = \<lparr>tok_type = EXT_ARGS_TOK_EOI, tok_str = NULL, tok_len = 0\<rparr>,
      posArgs = [],
      groups =
        [\<lparr>gr_isOptional = True, gr_hasAssign = True, gr_isAssignOptional = False, gr_isRepeating = False,
          gr_aliasCount = 1, gr_varPtr = None, gr_isUsed = False, gr_ary = []\<rparr>],
      floats =
        [\<lparr>fa_str = Ptr ''-a=val]'', fa_len = 2, fa_groupIdx = 0\<rparr>],
      sequence =
        [\<lparr>sq_type = EXT_ARGS_ARG_GROUP, sq_idx = 0\<rparr>],
      varPosArgsEnabled = False, varPosrArgsVarPtr = None\<rparr>"

definition schema_a_val :: EXT_ARGS_Parser where
  "schema_a_val =
     \<lparr>prs_str = [], prs_isOptional = False,
      lastMatchTok = \<lparr>tok_type = EXT_ARGS_TOK_EOI, tok_str = NULL, tok_len = 0\<rparr>,
      posArgs = [],
      groups =
        [\<lparr>gr_isOptional = False, gr_hasAssign = True, gr_isAssignOptional = False, gr_isRepeating = False,
          gr_aliasCount = 1, gr_varPtr = None, gr_isUsed = False, gr_ary = []\<rparr>],
      floats =
        [\<lparr>fa_str = Ptr ''-a=val'', fa_len = 2, fa_groupIdx = 0\<rparr>],
      sequence =
        [\<lparr>sq_type = EXT_ARGS_ARG_GROUP, sq_idx = 0\<rparr>],
      varPosArgsEnabled = False, varPosrArgsVarPtr = None\<rparr>"

definition schema_opt_a_pos_b :: EXT_ARGS_Parser where
  "schema_opt_a_pos_b =
     \<lparr>prs_str = [], prs_isOptional = False,
      lastMatchTok = \<lparr>tok_type = EXT_ARGS_TOK_EOI, tok_str = NULL, tok_len = 0\<rparr>,
      posArgs =
        [\<lparr>pa_isOptional = True, pa_str = Ptr ''a] b'', pa_len = 1, pa_varPtr = None\<rparr>,
         \<lparr>pa_isOptional = False, pa_str = Ptr ''b'', pa_len = 1, pa_varPtr = None\<rparr>],
      groups = [],
      floats = [],
      sequence =
        [\<lparr>sq_type = EXT_ARGS_ARG_POS, sq_idx = 0\<rparr>,
         \<lparr>sq_type = EXT_ARGS_ARG_POS, sq_idx = 1\<rparr>],
      varPosArgsEnabled = False, varPosrArgsVarPtr = None\<rparr>"

definition schema_opt_a :: EXT_ARGS_Parser where
  "schema_opt_a =
     \<lparr>prs_str = [], prs_isOptional = False,
      lastMatchTok = \<lparr>tok_type = EXT_ARGS_TOK_EOI, tok_str = NULL, tok_len = 0\<rparr>,
      posArgs = [],
      groups =
        [\<lparr>gr_isOptional = True, gr_hasAssign = False, gr_isAssignOptional = False, gr_isRepeating = False,
          gr_aliasCount = 1, gr_varPtr = None, gr_isUsed = False, gr_ary = []\<rparr>],
      floats =
        [\<lparr>fa_str = Ptr ''-a]'', fa_len = 2, fa_groupIdx = 0\<rparr>],
      sequence =
        [\<lparr>sq_type = EXT_ARGS_ARG_GROUP, sq_idx = 0\<rparr>],
      varPosArgsEnabled = False, varPosrArgsVarPtr = None\<rparr>"

definition schema_opt_a_all :: EXT_ARGS_Parser where
  "schema_opt_a_all =
     \<lparr>prs_str = [], prs_isOptional = False,
      lastMatchTok = \<lparr>tok_type = EXT_ARGS_TOK_EOI, tok_str = NULL, tok_len = 0\<rparr>,
      posArgs = [],
      groups =
        [\<lparr>gr_isOptional = True, gr_hasAssign = False, gr_isAssignOptional = False, gr_isRepeating = False,
          gr_aliasCount = 2, gr_varPtr = None, gr_isUsed = False, gr_ary = []\<rparr>],
      floats =
        [\<lparr>fa_str = Ptr ''-a|--all]'', fa_len = 2, fa_groupIdx = 0\<rparr>,
         \<lparr>fa_str = Ptr ''--all]'', fa_len = 5, fa_groupIdx = 0\<rparr>],
      sequence =
        [\<lparr>sq_type = EXT_ARGS_ARG_GROUP, sq_idx = 0\<rparr>],
      varPosArgsEnabled = False, varPosrArgsVarPtr = None\<rparr>"

text \<open>The tokens of the input tokenizer, and a flag occurrence as the input parser saves
  it.\<close>

definition flag_utok :: "string \<Rightarrow> nat \<Rightarrow> EXT_ARGS_UTok" where
  "flag_utok arg n = \<lparr>utok_type = EXT_ARGS_UTOK_FLOAT, utok_str = Ptr arg, utok_len = n\<rparr>"

definition eql_utok :: "string \<Rightarrow> EXT_ARGS_UTok" where
  "eql_utok text =
     \<lparr>utok_type = EXT_ARGS_UTOK_EQL, utok_str = Ptr (CHR ''='' # text), utok_len = 0\<rparr>"

definition val_utok :: "string \<Rightarrow> EXT_ARGS_UTok" where
  "val_utok text = \<lparr>utok_type = EXT_ARGS_UTOK_VAL, utok_str = Ptr text, utok_len = 0\<rparr>"

definition eoi_utok :: EXT_ARGS_UTok where
  "eoi_utok = \<lparr>utok_type = EXT_ARGS_UTOK_EOI, utok_str = NULL, utok_len = 0\<rparr>"

definition occurrence :: "string \<Rightarrow> nat \<Rightarrow> cptr \<Rightarrow> EXT_ARGS_UFloatArg" where
  "occurrence arg n v = \<lparr>uf_str = Ptr arg, uf_len = n, uf_assignVal = v\<rparr>"

section \<open>Auxiliary definitions for the proofs\<close>

text \<open>What the schema parser maintains for every group it has saved.\<close>

definition repeating_ok :: "EXT_ARGS_FloatArgsGroup \<Rightarrow> bool" where
  "repeating_ok g =
     (if gr_isRepeating g then gr_hasAssign g \<and> \<not> gr_isAssignOptional g else True)"









text \<open>The alias of the schema that a flag occurrence matches: the first element of
  \<^verbatim>\<open>prs.floats\<close> with the length and the characters of the occurrence, as the loops at
  lines 872 and 973 search it.\<close>

fun matching_float ::
  "EXT_ARGS_UFloatArg \<Rightarrow> EXT_ARGS_FloatArg list \<Rightarrow> EXT_ARGS_FloatArg option" where
  "matching_float uf [] = None"
| "matching_float uf (f # fs) =
     (if uf_len uf \<noteq> fa_len f then matching_float uf fs
      else if strncmp_eq (uf_str uf) (fa_str f) (fa_len f) then Some f
      else matching_float uf fs)"

section \<open>Evaluating the schema parser\<close>

lemma Synopsis_a_b_dots:
  "EXT_ARGS_Synopsis (init_parser ''a [b] ...'') = Inr schema_a_b_dots"
  unfolding schema_a_b_dots_def by code_simp

lemma Synopsis_D_rep:
  "EXT_ARGS_Synopsis (init_parser ''-D=val...'') = Inr schema_D_rep"
  unfolding schema_D_rep_def by code_simp

lemma Synopsis_opt_D_rep:
  "EXT_ARGS_Synopsis (init_parser ''[-D=val...]'') = Inr schema_opt_D_rep"
  unfolding schema_opt_D_rep_def by code_simp

lemma Synopsis_a_optval:
  "EXT_ARGS_Synopsis (init_parser ''-a[=val]'') = Inr schema_a_optval"
  unfolding schema_a_optval_def by code_simp

lemma Synopsis_opt_a_optval:
  "EXT_ARGS_Synopsis (init_parser ''[-a[=val]]'') = Inr schema_opt_a_optval"
  unfolding schema_opt_a_optval_def by code_simp

lemma Synopsis_opt_a_opt_b:
  "EXT_ARGS_Synopsis (init_parser ''[a] [b]'') = Inr schema_opt_a_opt_b"
  unfolding schema_opt_a_opt_b_def by code_simp

lemma Synopsis_opt_a_val:
  "EXT_ARGS_Synopsis (init_parser ''[-a=val]'') = Inr schema_opt_a_val"
  unfolding schema_opt_a_val_def by code_simp

lemma Synopsis_a_val:
  "EXT_ARGS_Synopsis (init_parser ''-a=val'') = Inr schema_a_val"
  unfolding schema_a_val_def by code_simp

lemma Synopsis_opt_a_pos_b:
  "EXT_ARGS_Synopsis (init_parser ''[a] b'') = Inr schema_opt_a_pos_b"
  unfolding schema_opt_a_pos_b_def by code_simp

lemma Synopsis_opt_a:
  "EXT_ARGS_Synopsis (init_parser ''[-a]'') = Inr schema_opt_a"
  unfolding schema_opt_a_def by code_simp

lemma Synopsis_opt_a_all:
  "EXT_ARGS_Synopsis (init_parser ''[-a|--all]'') = Inr schema_opt_a_all"
  unfolding schema_opt_a_all_def by code_simp

lemmas lex_defs = EXT_ARGS_ArgFloat_def EXT_ARGS_Name_def EXT_ARGS_Char_def deref_def
  is_alpha_def is_name_char_def

lemmas input_defs = match_input_def read_input_def lex_input_def lex_arg_def lex_defs
  check_posArgs_def manposArgsCount_def get_all_var_ptrs_def fill_vars_def store_def
  strncmp_eq_def chars_of_def dquote_def

lemmas utok_defs = flag_utok_def eql_utok_def val_utok_def eoi_utok_def occurrence_def

lemma ext_args_read_error:
  assumes "EXT_ARGS_Synopsis (init_parser fmt) = Inr prs"
    and "\<not> optional_before_mandatory (posArgs prs)"
    and "read_input prs argv = Inl (Err r msg)"
  shows "ext_args argv fmt ap m = Return r (Some (Ptr msg)) m"
  using assms by (simp add: ext_args_def match_input_def)

section \<open>Binding of positional, repeating and optional-value arguments\<close>

text \<open>
  Claim C1. For the schema \<^verbatim>\<open>a [b] ...\<close>, called with the three output slots at the
  addresses 0, 1 and 2 and any program name \<open>p\<close>: the arguments \<^verbatim>\<open>1 2 3\<close> are matched
  without error, and afterwards the first slot holds \<^verbatim>\<open>"1"\<close>, the second \<^verbatim>\<open>"2"\<close> and the
  trailing slot the array \<^verbatim>\<open>{"3", NULL}\<close>; the single argument \<^verbatim>\<open>1\<close> is matched without
  error, and afterwards the first slot holds \<^verbatim>\<open>"1"\<close>, the second \<open>NULL\<close>, and the
  trailing slot an array that is not null and holds only the terminating \<open>NULL\<close>.
  No other variable of the caller is changed, and \<^verbatim>\<open>*oerr\<close> is not written.
\<close>

theorem positional_and_trailing_binding:
  "ext_args [p, ''1'', ''2'', ''3''] ''a [b] ...'' [Some 0, Some 1, Some 2] m
     = Return EXT_ARGS_NO_ERR None
         (m(0 := VStr (Ptr ''1''), 1 := VStr (Ptr ''2''), 2 := VAry [Ptr ''3'', NULL]))
   \<and> ext_args [p, ''1''] ''a [b] ...'' [Some 0, Some 1, Some 2] m
     = Return EXT_ARGS_NO_ERR None
         (m(0 := VStr (Ptr ''1''), 1 := VStr NULL, 2 := VAry [NULL]))"
  by (auto simp add: ext_args_def Synopsis_a_b_dots schema_a_b_dots_def input_defs)

text \<open>
  Claim C2. For the repeating group \<^verbatim>\<open>-D=val...\<close>, the arguments \<^verbatim>\<open>-D=1 -D=2\<close> are matched
  without error and the slot then holds the array \<^verbatim>\<open>{"1", "2", NULL}\<close>, the values in the
  order of their occurrence; for the optional group \<^verbatim>\<open>[-D=val...]\<close> and no argument at
  all, the match succeeds and the slot holds an array that is not null and holds only the
  terminating \<open>NULL\<close>.
\<close>

theorem repeating_group_binding:
  "ext_args [p, ''-D=1'', ''-D=2''] ''-D=val...'' [Some 0] m
     = Return EXT_ARGS_NO_ERR None (m(0 := VAry [Ptr ''1'', Ptr ''2'', NULL]))
   \<and> ext_args [p] ''[-D=val...]'' [Some 0] m
     = Return EXT_ARGS_NO_ERR None (m(0 := VAry [NULL]))"
  by (simp add: ext_args_def Synopsis_D_rep schema_D_rep_def Synopsis_opt_D_rep
        schema_opt_D_rep_def input_defs)

text \<open>
  Claim C3. For the group \<^verbatim>\<open>-a[=val]\<close>, the bare argument \<^verbatim>\<open>-a\<close> is matched without error
  and the slot then holds the pointer \<^verbatim>\<open>ext_args_no_value\<close>; the argument \<^verbatim>\<open>-a=x\<close> leaves
  \<^verbatim>\<open>"x"\<close> in the slot; and for the optional group \<^verbatim>\<open>[-a[=val]]\<close> and no argument the slot
  holds \<open>NULL\<close>. The pointer \<^verbatim>\<open>ext_args_no_value\<close> is neither \<open>NULL\<close> nor a pointer into
  an argument (the source compares it by address).
\<close>

theorem optional_value_binding:
  "ext_args [p, ''-a''] ''-a[=val]'' [Some 0] m
     = Return EXT_ARGS_NO_ERR None (m(0 := VStr ext_args_no_value))
   \<and> ext_args [p, ''-a=x''] ''-a[=val]'' [Some 0] m
     = Return EXT_ARGS_NO_ERR None (m(0 := VStr (Ptr ''x'')))
   \<and> ext_args [p] ''[-a[=val]]'' [Some 0] m
     = Return EXT_ARGS_NO_ERR None (m(0 := VStr NULL))
   \<and> ext_args_no_value \<noteq> NULL \<and> ext_args_no_value \<noteq> Ptr s"
  by (simp add: ext_args_def Synopsis_a_optval schema_a_optval_def Synopsis_opt_a_optval
        schema_opt_a_optval_def input_defs)

section \<open>The input terminator\<close>

text \<open>
  Claim C5. The raw argument \<^verbatim>\<open>--\<close> ends the tokenizing: whatever raw arguments follow,
  only the end-of-input token is added. But the source takes a raw argument for this
  terminator as soon as it is not a flag and starts with two \<^verbatim>\<open>-\<close>; it does not look at
  what follows them. So \<^verbatim>\<open>--1\<close> ends the tokenizing in the same way, instead of becoming a
  plain value: for the schema \<^verbatim>\<open>[a] [b]\<close> and the arguments \<^verbatim>\<open>--1 x\<close> the match succeeds
  and both slots are \<open>NULL\<close>.
\<close>

theorem terminator_prefix_only:
  "lex_args (''--'' # rest) tokens = Inr (tokens @ [eoi_utok])
   \<and> lex_args (''--1'' # rest) tokens = Inr (tokens @ [eoi_utok])
   \<and> ext_args [p, ''--1'', ''x''] ''[a] [b]'' [Some 0, Some 1] m
     = Return EXT_ARGS_NO_ERR None (m(0 := VStr NULL, 1 := VStr NULL))"
  by (simp add: ext_args_def Synopsis_opt_a_opt_b schema_opt_a_opt_b_def input_defs
        eoi_utok_def)

section \<open>The schema validator\<close>

lemma optional_before_mandatory_nth:
  "i < j \<Longrightarrow> j < length pas \<Longrightarrow> pa_isOptional (pas ! i) \<Longrightarrow> \<not> pa_isOptional (pas ! j)
     \<Longrightarrow> optional_before_mandatory pas"
proof (induction pas arbitrary: i j rule: optional_before_mandatory.induct)
  case (1 a b rest)
  show ?case
  proof (cases "pa_isOptional a \<and> \<not> pa_isOptional b")
    case True
    then show ?thesis by simp
  next
    case False
    have "\<exists>i' j'. i' < j' \<and> j' < length (b # rest) \<and> pa_isOptional ((b # rest) ! i')
            \<and> \<not> pa_isOptional ((b # rest) ! j')"
    proof (cases i)
      case 0
      with "1.prems" False have ob: "pa_isOptional b" by simp
      with "1.prems" 0 have "j \<noteq> Suc 0" by auto
      with "1.prems" 0 obtain j' where j: "j = Suc j'" "0 < j'" by (cases j) auto
      with "1.prems" ob show ?thesis by (intro exI [of _ 0] exI [of _ j']) auto
    next
      case (Suc i')
      with "1.prems" obtain j' where "j = Suc j'" "i' < j'" by (cases j) auto
      with "1.prems" Suc show ?thesis by (intro exI [of _ i'] exI [of _ j']) auto
    qed
    then obtain i' j' where "i' < j'" "j' < length (b # rest)" "pa_isOptional ((b # rest) ! i')"
      "\<not> pa_isOptional ((b # rest) ! j')" by blast
    from "1.IH" [OF False this] False show ?thesis by simp
  qed
qed auto

text \<open>
  Claim C6. Let the schema lex and parse, and let its positional arguments, in the order of
  their declaration, have an optional one at some index \<open>i\<close> and a mandatory one at a later
  index \<open>j\<close>. Then \<^verbatim>\<open>ext_args\<close> returns \<^verbatim>\<open>EXT_ARGS_SCHEMA_ERR\<close> with one fixed message,
  whatever the argument vector, the output slots and the caller's variables are, and it
  leaves the variables as they were: the input is not looked at.
\<close>

theorem optional_then_mandatory_rejected:
  assumes "EXT_ARGS_Synopsis (init_parser fmt) = Inr prs"
    and "i < j" and "j < length (posArgs prs)"
    and "pa_isOptional (posArgs prs ! i)" and "\<not> pa_isOptional (posArgs prs ! j)"
  shows "ext_args argv fmt ap m =
           Return EXT_ARGS_SCHEMA_ERR
             (Some (Ptr ''All optional non-flag arguments must be chained on the schema's right side''))
             m"
  using optional_before_mandatory_nth [OF assms(2-5)] assms(1)
  by (simp add: ext_args_def)

theorem optional_then_mandatory_rejected_witness:
  "EXT_ARGS_Synopsis (init_parser ''[a] b'') = Inr schema_opt_a_pos_b
   \<and> (0 :: nat) < 1 \<and> 1 < length (posArgs schema_opt_a_pos_b)
   \<and> pa_isOptional (posArgs schema_opt_a_pos_b ! 0)
   \<and> \<not> pa_isOptional (posArgs schema_opt_a_pos_b ! 1)
   \<and> ext_args [''prog'', ''x'', ''-y''] ''[a] b'' [Some 0, Some 1] mem0 =
         Return EXT_ARGS_SCHEMA_ERR
           (Some (Ptr ''All optional non-flag arguments must be chained on the schema's right side''))
           mem0"
proof -
  have h: "(0 :: nat) < 1" "1 < length (posArgs schema_opt_a_pos_b)"
    "pa_isOptional (posArgs schema_opt_a_pos_b ! 0)"
    "\<not> pa_isOptional (posArgs schema_opt_a_pos_b ! 1)"
    by (simp_all add: schema_opt_a_pos_b_def)
  from optional_then_mandatory_rejected [OF Synopsis_opt_a_pos_b h] Synopsis_opt_a_pos_b h
  show ?thesis by simp
qed

section \<open>Repeating groups take a value\<close>

lemma EXT_ARGS_Match_groups:
  "EXT_ARGS_Match ty prs m = Inr (b, prs') \<Longrightarrow> groups prs' = groups prs"
  by (auto simp: EXT_ARGS_Match_def Let_def split: sum.splits prod.splits if_splits)

lemma EXT_ARGS_AssignVal_groups:
  "EXT_ARGS_AssignVal prs m = Inr (b, prs') \<Longrightarrow> groups prs' = groups prs"
  unfolding EXT_ARGS_AssignVal_def Let_def
  by (auto split: sum.splits prod.splits if_splits bool.splits dest!: EXT_ARGS_Match_groups)

lemma EXT_ARGS_Arg_aliases_groups:
  "EXT_ARGS_Arg_aliases prs m g n = Inr (r, prs') \<Longrightarrow> groups prs' = groups prs"
proof (induction prs m g n rule: EXT_ARGS_Arg_aliases.induct)
  case (1 prs isMandatory groupIdx aliasCount)
  obtain b1 p1 where m1: "EXT_ARGS_Match EXT_ARGS_TOK_PIPE prs False = Inr (b1, p1)"
    using "1.prems" by (cases "EXT_ARGS_Match EXT_ARGS_TOK_PIPE prs False")
      (auto simp: EXT_ARGS_Arg_aliases.simps [of prs])
  note g1 = EXT_ARGS_Match_groups [OF m1]
  show ?case
  proof (cases b1)
    case False
    with m1 "1.prems" g1 show ?thesis
      by (auto simp: EXT_ARGS_Arg_aliases.simps [of prs])
  next
    case True
    obtain b2 p2 where m2: "EXT_ARGS_Match EXT_ARGS_TOK_FLOAT_ARG p1 isMandatory = Inr (b2, p2)"
      using "1.prems" m1 True by (cases "EXT_ARGS_Match EXT_ARGS_TOK_FLOAT_ARG p1 isMandatory")
        (auto simp: EXT_ARGS_Arg_aliases.simps [of prs])
    note g2 = EXT_ARGS_Match_groups [OF m2]
    show ?thesis
    proof (cases b2)
      case False
      with m1 m2 True "1.prems" g1 g2 show ?thesis
        by (auto simp: EXT_ARGS_Arg_aliases.simps [of prs])
    next
      case b2: True
      from m1 m2 True b2 "1.prems"
      have r: "EXT_ARGS_Arg_aliases (EXT_ARGS_SaveFloatArg p2 groupIdx) isMandatory groupIdx
                 (aliasCount + 1) = Inr (r, prs')"
        by (simp add: EXT_ARGS_Arg_aliases.simps [of prs])
      have "groups prs' = groups (EXT_ARGS_SaveFloatArg p2 groupIdx)"
        using "1.IH" [OF m1 refl _ m2 refl _ r] True b2 by simp
      with g1 g2 show ?thesis by (simp add: EXT_ARGS_SaveFloatArg_def)
    qed
  qed
qed

lemma EXT_ARGS_Arg_assign_ok:
  assumes "EXT_ARGS_Arg_assign p4 (length (groups p4)) n = Inr (b, prs')"
    and "list_all repeating_ok (groups p4)"
  shows "list_all repeating_ok (groups prs')"
  using assms unfolding EXT_ARGS_Arg_assign_def Let_def
  by (auto simp: EXT_ARGS_SaveGroup_def repeating_ok_def
           split: sum.splits prod.splits if_splits
           dest!: EXT_ARGS_Match_groups EXT_ARGS_AssignVal_groups)

lemma EXT_ARGS_Arg_ok:
  assumes "EXT_ARGS_Arg prs m = Inr (b, prs')"
    and "list_all repeating_ok (groups prs)"
  shows "list_all repeating_ok (groups prs')"
proof -
  obtain b1 p1 where m1: "EXT_ARGS_Match EXT_ARGS_TOK_NAME prs False = Inr (b1, p1)"
    using assms(1) by (cases "EXT_ARGS_Match EXT_ARGS_TOK_NAME prs False")
      (auto simp: EXT_ARGS_Arg_def)
  note g1 = EXT_ARGS_Match_groups [OF m1]
  show ?thesis
  proof (cases b1)
    case True
    with assms m1 g1 show ?thesis by (auto simp: EXT_ARGS_Arg_def EXT_ARGS_SavePosArg_def)
  next
    case False
    obtain b2 p2 where m2: "EXT_ARGS_Match EXT_ARGS_TOK_FLOAT_ARG p1 m = Inr (b2, p2)"
      using assms(1) m1 False by (cases "EXT_ARGS_Match EXT_ARGS_TOK_FLOAT_ARG p1 m")
        (auto simp: EXT_ARGS_Arg_def)
    note g2 = EXT_ARGS_Match_groups [OF m2]
    show ?thesis
    proof (cases b2)
      case False
      with assms m1 m2 \<open>\<not> b1\<close> g1 g2 show ?thesis by (auto simp: EXT_ARGS_Arg_def)
    next
      case True
      define p3 where "p3 = EXT_ARGS_SaveFloatArg p2 (length (groups p2))"
      have g3: "groups p3 = groups p2" by (simp add: p3_def EXT_ARGS_SaveFloatArg_def)
      obtain r p4 where al: "EXT_ARGS_Arg_aliases p3 m (length (groups p2)) 1 = Inr (r, p4)"
        using assms(1) m1 m2 \<open>\<not> b1\<close> True
        by (cases "EXT_ARGS_Arg_aliases p3 m (length (groups p2)) 1")
          (auto simp: EXT_ARGS_Arg_def Let_def p3_def)
      from EXT_ARGS_Arg_aliases_groups [OF al] g3 g2 g1
      have g4: "groups p4 = groups prs" by simp
      show ?thesis
      proof (cases r)
        case None
        with assms m1 m2 \<open>\<not> b1\<close> True al g4 show ?thesis
          by (auto simp: EXT_ARGS_Arg_def Let_def p3_def)
      next
        case (Some aliasCount)
        from assms(1) m1 m2 \<open>\<not> b1\<close> True al Some g4 g2 g1
        have "EXT_ARGS_Arg_assign p4 (length (groups p4)) aliasCount = Inr (b, prs')"
          by (simp add: EXT_ARGS_Arg_def Let_def p3_def)
        from EXT_ARGS_Arg_assign_ok [OF this] assms(2) g4 show ?thesis by simp
      qed
    qed
  qed
qed

lemma EXT_ARGS_Decl_ok:
  assumes "EXT_ARGS_Decl prs m = Inr (b, prs')"
    and "list_all repeating_ok (groups prs)"
  shows "list_all repeating_ok (groups prs')"
proof -
  obtain b1 p1 where a1: "EXT_ARGS_Arg (prs\<lparr>prs_isOptional := False\<rparr>) False = Inr (b1, p1)"
    using assms(1) by (cases "EXT_ARGS_Arg (prs\<lparr>prs_isOptional := False\<rparr>) False")
      (auto simp: EXT_ARGS_Decl_def)
  from EXT_ARGS_Arg_ok [OF a1] assms(2) have ok1: "list_all repeating_ok (groups p1)" by simp
  show ?thesis
  proof (cases b1)
    case True
    with assms(1) a1 ok1 show ?thesis by (auto simp: EXT_ARGS_Decl_def)
  next
    case False
    obtain b2 p2 where m2: "EXT_ARGS_Match EXT_ARGS_TOK_LBRAK p1 m = Inr (b2, p2)"
      using assms(1) a1 False by (cases "EXT_ARGS_Match EXT_ARGS_TOK_LBRAK p1 m")
        (auto simp: EXT_ARGS_Decl_def Let_def)
    from EXT_ARGS_Match_groups [OF m2] ok1 have ok2: "list_all repeating_ok (groups p2)" by simp
    show ?thesis
    proof (cases b2)
      case False
      with assms(1) a1 \<open>\<not> b1\<close> m2 ok2 show ?thesis by (auto simp: EXT_ARGS_Decl_def Let_def)
    next
      case True
      obtain b3 p3 where a3: "EXT_ARGS_Arg (p2\<lparr>prs_isOptional := True\<rparr>) m = Inr (b3, p3)"
        using assms(1) a1 \<open>\<not> b1\<close> m2 True
        by (cases "EXT_ARGS_Arg (p2\<lparr>prs_isOptional := True\<rparr>) m")
          (auto simp: EXT_ARGS_Decl_def Let_def)
      from EXT_ARGS_Arg_ok [OF a3] ok2 have ok3: "list_all repeating_ok (groups p3)" by simp
      from assms(1) a1 \<open>\<not> b1\<close> m2 True a3 ok3 show ?thesis
        by (auto simp: EXT_ARGS_Decl_def Let_def split: sum.splits prod.splits if_splits
                 dest!: EXT_ARGS_Match_groups)
    qed
  qed
qed

lemma EXT_ARGS_Decls_ok:
  "EXT_ARGS_Decls prs = Inr prs' \<Longrightarrow> list_all repeating_ok (groups prs)
     \<Longrightarrow> list_all repeating_ok (groups prs')"
proof (induction prs rule: EXT_ARGS_Decls.induct)
  case (1 prs)
  obtain b p where d: "EXT_ARGS_Decl prs False = Inr (b, p)"
    using "1.prems"(1) by (cases "EXT_ARGS_Decl prs False")
      (auto simp: EXT_ARGS_Decls.simps [of prs])
  from EXT_ARGS_Decl_ok [OF d "1.prems"(2)] have ok: "list_all repeating_ok (groups p)" .
  show ?case
  proof (cases b)
    case True
    with d "1.prems"(1) have "EXT_ARGS_Decls p = Inr prs'"
      by (simp add: EXT_ARGS_Decls.simps [of prs])
    from "1.IH" [OF d refl True this ok] show ?thesis .
  next
    case False
    with d "1.prems"(1) ok show ?thesis by (simp add: EXT_ARGS_Decls.simps [of prs])
  qed
qed

lemma EXT_ARGS_Synopsis_ok:
  assumes "EXT_ARGS_Synopsis prs = Inr prs'" and "list_all repeating_ok (groups prs)"
  shows "list_all repeating_ok (groups prs')"
proof -
  from assms(1) obtain p1 b2 p2 b4
    where d: "EXT_ARGS_Decls prs = Inr p1"
      and m2: "EXT_ARGS_Match EXT_ARGS_TOK_DOTS p1 False = Inr (b2, p2)"
      and m4: "EXT_ARGS_Match EXT_ARGS_TOK_EOI
                 (if b2 then p2\<lparr>varPosArgsEnabled := True\<rparr> else p2) True = Inr (b4, prs')"
    by (auto simp: EXT_ARGS_Synopsis_def Let_def split: sum.splits prod.splits)
  from EXT_ARGS_Decls_ok [OF d assms(2)] EXT_ARGS_Match_groups [OF m2] EXT_ARGS_Match_groups [OF m4]
  show ?thesis by (auto split: if_splits)
qed

text \<open>
  Claim C8. For every schema that \<^verbatim>\<open>EXT_ARGS_Synopsis\<close> accepts, every group of the
  resulting parser state with \<^verbatim>\<open>isRepeating\<close> set has \<^verbatim>\<open>hasAssign\<close> set, and does not
  have \<^verbatim>\<open>isAssignOptional\<close> set: the optional value form \<^verbatim>\<open>[=val]\<close> never gives a repeating
  group.
\<close>

theorem repeatable_takes_value:
  assumes "EXT_ARGS_Synopsis (init_parser fmt) = Inr prs"
    and "g \<in> set (groups prs)" and "gr_isRepeating g"
  shows "gr_hasAssign g \<and> \<not> gr_isAssignOptional g"
proof -
  have "list_all repeating_ok (groups (init_parser fmt))" by (simp add: init_parser_def)
  from EXT_ARGS_Synopsis_ok [OF assms(1) this] assms(2,3) show ?thesis
    by (auto simp: list_all_iff repeating_ok_def)
qed

theorem repeatable_takes_value_witness:
  "EXT_ARGS_Synopsis (init_parser ''-D=val...'') = Inr schema_D_rep
   \<and> hd (groups schema_D_rep) \<in> set (groups schema_D_rep)
   \<and> gr_isRepeating (hd (groups schema_D_rep))
   \<and> gr_hasAssign (hd (groups schema_D_rep))
   \<and> \<not> gr_isAssignOptional (hd (groups schema_D_rep))"
proof -
  have h: "hd (groups schema_D_rep) \<in> set (groups schema_D_rep)"
    "gr_isRepeating (hd (groups schema_D_rep))"
    by (simp_all add: schema_D_rep_def)
  from repeatable_takes_value [OF Synopsis_D_rep h] Synopsis_D_rep h show ?thesis by simp
qed

section \<open>Errors leave the caller's variables alone\<close>

text \<open>
  Claim C9. When \<^verbatim>\<open>ext_args\<close> returns \<^verbatim>\<open>EXT_ARGS_SCHEMA_ERR\<close> or \<^verbatim>\<open>EXT_ARGS_INPUT_ERR\<close>,
  the caller's variables hold what they held before the call, and no output slot has been
  taken from \<^verbatim>\<open>ap\<close>: the call returns the same error for any other list of slots. The
  slots are read, and the variables written, only after the schema has been lexed, parsed
  and validated and the three validations of the input have passed.
\<close>

theorem no_write_on_error:
  assumes "ext_args argv fmt ap m = Return r e m'"
    and "r = EXT_ARGS_SCHEMA_ERR \<or> r = EXT_ARGS_INPUT_ERR"
  shows "m' = m \<and> ext_args argv fmt ap' m = Return r e m"
proof (cases "EXT_ARGS_Synopsis (init_parser fmt)")
  case (Inl j)
  with assms(1) show ?thesis by (cases j) (auto simp: ext_args_def)
next
  case (Inr prs)
  show ?thesis
  proof (cases "optional_before_mandatory (posArgs prs)")
    case True
    with Inr assms(1) show ?thesis by (auto simp: ext_args_def)
  next
    case False
    show ?thesis
    proof (cases "read_input prs argv")
      case (Inl a)
      with Inr False assms(1) show ?thesis
        by (cases a) (auto simp: ext_args_def match_input_def)
    next
      case ri: (Inr x)
      with Inr False assms show ?thesis
        by (auto simp: ext_args_def match_input_def split: option.splits prod.splits)
    qed
  qed
qed

theorem no_write_on_error_witness:
  "ext_args [''prog'', ''-a'', ''-a''] ''[-a]'' [Some 0] mem0
     = Return EXT_ARGS_INPUT_ERR
         (Some (Ptr ''Same arguments provided multiple times: -a'')) mem0
   \<and> ext_args [''prog'', ''-a'', ''-a''] ''[-a]'' [] mem0
     = Return EXT_ARGS_INPUT_ERR
         (Some (Ptr ''Same arguments provided multiple times: -a'')) mem0"
proof -
  have ev: "ext_args [''prog'', ''-a'', ''-a''] ''[-a]'' [Some 0] mem0
     = Return EXT_ARGS_INPUT_ERR
         (Some (Ptr ''Same arguments provided multiple times: -a'')) mem0"
    by (simp add: ext_args_def Synopsis_opt_a schema_opt_a_def input_defs)
  from no_write_on_error [OF ev, of "[]"] ev show ?thesis by simp
qed

section \<open>Calling twice\<close>













section \<open>The inputs are only read\<close>








































section \<open>A flag given twice\<close>

lemma validate_float_matching:
  "matching_float uf fs = Some f \<Longrightarrow>
   validate_float uf fs gs =
     (if \<not> fa_groupIdx f < length gs then Inl UB
      else if gr_isUsed (gs ! fa_groupIdx f) \<and> \<not> gr_isRepeating (gs ! fa_groupIdx f) then
        Inl (Err EXT_ARGS_INPUT_ERR
          (''Same arguments provided multiple times: ''
           @ take (uf_len uf) (chars_of (uf_str uf))))
      else if gr_hasAssign (gs ! fa_groupIdx f) \<and> uf_assignVal uf = NULL
              \<and> \<not> gr_isAssignOptional (gs ! fa_groupIdx f) then
        Inl (Err EXT_ARGS_INPUT_ERR
          (dquote @ take (uf_len uf) (chars_of (uf_str uf)) @ dquote
           @ '' argument requires a value''))
      else if \<not> gr_hasAssign (gs ! fa_groupIdx f) \<and> uf_assignVal uf \<noteq> NULL then
        Inl (Err EXT_ARGS_INPUT_ERR
          (dquote @ take (uf_len uf) (chars_of (uf_str uf)) @ dquote
           @ '' argument does not require a value''))
      else Inr (True, gs[fa_groupIdx f := (gs ! fa_groupIdx f)\<lparr>gr_isUsed := True\<rparr>]))"
proof (induction fs)
  case Nil
  then show ?case by simp
next
  case (Cons f' fs)
  show ?case
  proof (cases "uf_len uf = fa_len f' \<and> strncmp_eq (uf_str uf) (fa_str f') (fa_len f')")
    case True
    with Cons.prems have "f' = f" by simp
    with True show ?thesis by (simp add: Let_def)
  next
    case False
    with Cons.prems have "matching_float uf fs = Some f" by (auto split: if_split_asm)
    from Cons.IH [OF this] False show ?thesis by auto
  qed
qed

lemma validate_float_no_match:
  "matching_float uf fs = None \<Longrightarrow> validate_float uf fs gs = Inr (False, gs)"
  by (induction fs) (auto split: if_splits)

text \<open>One step of the validation keeps the number of groups and which of them repeat, keeps
  the groups already used, and marks the group of the occurrence.\<close>

lemma validate_float_step:
  assumes "validate_float uf fs gs = Inr (True, gs')"
  shows "length gs' = length gs"
    and "\<And>i. gr_isRepeating (gs' ! i) = gr_isRepeating (gs ! i)"
    and "\<And>i. i < length gs \<Longrightarrow> gr_isUsed (gs ! i) \<Longrightarrow> gr_isUsed (gs' ! i)"
    and "\<And>f. matching_float uf fs = Some f \<Longrightarrow>
           fa_groupIdx f < length gs \<and> gr_isUsed (gs' ! fa_groupIdx f)"
proof -
  from assms obtain f where f: "matching_float uf fs = Some f"
    by (cases "matching_float uf fs") (auto simp: validate_float_no_match)
  from assms validate_float_matching [OF f, of gs]
  have idx: "fa_groupIdx f < length gs"
    and gs': "gs' = gs[fa_groupIdx f := (gs ! fa_groupIdx f)\<lparr>gr_isUsed := True\<rparr>]"
    by (auto split: if_splits)
  show "length gs' = length gs" by (simp add: gs')
  show "gr_isRepeating (gs' ! i) = gr_isRepeating (gs ! i)" for i
    using idx by (cases "i = fa_groupIdx f") (simp_all add: gs')
  show "gr_isUsed (gs' ! i)" if "i < length gs" "gr_isUsed (gs ! i)" for i
    using that by (cases "i = fa_groupIdx f") (simp_all add: gs')
  show "fa_groupIdx f' < length gs \<and> gr_isUsed (gs' ! fa_groupIdx f')"
    if "matching_float uf fs = Some f'" for f'
    using that f idx by (simp add: gs')
qed

lemma validate_floats_append:
  "validate_floats us fs gs = Inr gs1 \<Longrightarrow>
     validate_floats (us @ rest) fs gs = validate_floats rest fs gs1"
  by (induction us arbitrary: gs) (auto split: sum.splits prod.splits if_splits)

lemma validate_floats_keeps:
  "validate_floats us fs gs = Inr gs1 \<Longrightarrow>
     length gs1 = length gs
     \<and> (\<forall>i. gr_isRepeating (gs1 ! i) = gr_isRepeating (gs ! i))
     \<and> (\<forall>i < length gs. gr_isUsed (gs ! i) \<longrightarrow> gr_isUsed (gs1 ! i))"
proof (induction us arbitrary: gs)
  case Nil
  then show ?case by simp
next
  case (Cons u us)
  from Cons.prems obtain gs' where v: "validate_float u fs gs = Inr (True, gs')"
    and r: "validate_floats us fs gs' = Inr gs1"
    by (auto split: sum.splits prod.splits if_splits)
  from validate_float_step [OF v] Cons.IH [OF r] show ?case by auto
qed

lemma validate_floats_marks:
  "validate_floats us fs gs = Inr gs1 \<Longrightarrow> u0 \<in> set us \<Longrightarrow> matching_float u0 fs = Some f0
     \<Longrightarrow> fa_groupIdx f0 < length gs \<and> gr_isUsed (gs1 ! fa_groupIdx f0)"
proof (induction us arbitrary: gs)
  case Nil
  then show ?case by simp
next
  case (Cons u us)
  from Cons.prems(1) obtain gs' where v: "validate_float u fs gs = Inr (True, gs')"
    and r: "validate_floats us fs gs' = Inr gs1"
    by (auto split: sum.splits prod.splits if_splits)
  note st = validate_float_step [OF v]
  show ?case
  proof (cases "u0 = u")
    case True
    with st(4) Cons.prems(3) have "fa_groupIdx f0 < length gs" "gr_isUsed (gs' ! fa_groupIdx f0)"
      by auto
    with validate_floats_keeps [OF r] st(1) show ?thesis by auto
  next
    case False
    with Cons.prems(2) have "u0 \<in> set us" by simp
    from Cons.IH [OF r this Cons.prems(3)] st(1) show ?thesis by simp
  qed
qed

text \<open>
  Claim C4, as stated, fails: errors are reported in the order of the passes, and the first
  one wins. For the schema \<^verbatim>\<open>[-a=val]\<close> and the arguments \<^verbatim>\<open>-a -a\<close> the first occurrence
  already fails the validation, so the message is that \<^verbatim>\<open>-a\<close> requires a value, not that
  the same argument was provided multiple times.
\<close>

theorem repeated_flag_other_error:
  "ext_args [''prog'', ''-a'', ''-a''] ''[-a=val]'' [Some 0] mem0
     = Return EXT_ARGS_INPUT_ERR
         (Some (Ptr (dquote @ ''-a'' @ dquote @ '' argument requires a value''))) mem0
   \<and> ext_args [''prog'', ''-a'', ''-a''] ''[-a=val]'' [Some 0] mem0
     \<noteq> Return EXT_ARGS_INPUT_ERR
         (Some (Ptr ''Same arguments provided multiple times: -a'')) mem0"
  by (simp add: ext_args_def Synopsis_opt_a_val schema_opt_a_val_def input_defs)

text \<open>
  Claim C4, amended. A flag occurrence is resolved to the first alias, in the order of
  declaration in the schema, that has the same length and the same characters as the flag
  text of the occurrence (\<open>matching_float\<close>). Let the schema be accepted (it lexes, parses and
  passes the schema validation) and let the argument vector be tokenized and parsed without
  error. If a flag occurrence \<open>u\<close> is resolved to an alias \<open>f\<close> whose group is not
  repeatable, an earlier occurrence \<open>u0\<close> is resolved to an alias \<open>f0\<close> of the same group,
  and every occurrence before \<open>u\<close> passes the validation of the occurrences, then
  \<^verbatim>\<open>ext_args\<close> returns \<^verbatim>\<open>EXT_ARGS_INPUT_ERR\<close> with the message
  \<^verbatim>\<open>Same arguments provided multiple times: \<close> followed by the flag text of \<open>u\<close> as
  supplied, and leaves the caller's variables as they were. Nothing is stated about a
  non-repeatable group all of whose aliases are declared earlier in the schema with the
  same text, as the second group of \<^verbatim>\<open>[-a=val...] [-a]\<close>: no occurrence is resolved to it.
\<close>

theorem repeated_flag_rejected:
  assumes "EXT_ARGS_Synopsis (init_parser fmt) = Inr prs"
    and "\<not> optional_before_mandatory (posArgs prs)"
    and "lex_input argv = Inr tokens"
    and "parse_tokens tokens [] [] = Inr (us @ u # rest, pos)"
    and "validate_floats us (floats prs) (groups prs) = Inr gs"
    and "u0 \<in> set us"
    and "matching_float u0 (floats prs) = Some f0"
    and "matching_float u (floats prs) = Some f"
    and "fa_groupIdx f = fa_groupIdx f0"
    and "\<not> gr_isRepeating (groups prs ! fa_groupIdx f)"
  shows "ext_args argv fmt ap m =
           Return EXT_ARGS_INPUT_ERR
             (Some (Ptr (''Same arguments provided multiple times: ''
                         @ take (uf_len u) (chars_of (uf_str u))))) m"
proof -
  from validate_floats_marks [OF assms(5-7)] assms(9)
  have idx: "fa_groupIdx f < length (groups prs)" and used: "gr_isUsed (gs ! fa_groupIdx f)"
    by simp_all
  from validate_floats_keeps [OF assms(5)] assms(10) idx
  have len: "fa_groupIdx f < length gs" and rep: "\<not> gr_isRepeating (gs ! fa_groupIdx f)"
    by simp_all
  from validate_float_matching [OF assms(8), of gs] len used rep
  have "validate_float u (floats prs) gs =
          Inl (Err EXT_ARGS_INPUT_ERR
            (''Same arguments provided multiple times: ''
             @ take (uf_len u) (chars_of (uf_str u))))"
    by simp
  then have "validate_floats (u # rest) (floats prs) gs =
          Inl (Err EXT_ARGS_INPUT_ERR
            (''Same arguments provided multiple times: ''
             @ take (uf_len u) (chars_of (uf_str u))))"
    by simp
  with validate_floats_append [OF assms(5), of "u # rest"]
  have "validate_floats (us @ u # rest) (floats prs) (groups prs) =
          Inl (Err EXT_ARGS_INPUT_ERR
            (''Same arguments provided multiple times: ''
             @ take (uf_len u) (chars_of (uf_str u))))"
    by simp
  with assms(3,4) have "read_input prs argv =
          Inl (Err EXT_ARGS_INPUT_ERR
            (''Same arguments provided multiple times: ''
             @ take (uf_len u) (chars_of (uf_str u))))"
    by (simp add: read_input_def)
  from ext_args_read_error [OF assms(1,2) this] show ?thesis .
qed


theorem repeated_flag_rejected_witness:
  "EXT_ARGS_Synopsis (init_parser ''[-a|--all]'') = Inr schema_opt_a_all
   \<and> \<not> optional_before_mandatory (posArgs schema_opt_a_all)
   \<and> lex_input [''prog'', ''-a'', ''--all'']
       = Inr [flag_utok ''-a'' 2, flag_utok ''--all'' 5, eoi_utok]
   \<and> parse_tokens [flag_utok ''-a'' 2, flag_utok ''--all'' 5, eoi_utok] [] []
       = Inr ([occurrence ''-a'' 2 NULL] @ occurrence ''--all'' 5 NULL # [], [])
   \<and> validate_floats [occurrence ''-a'' 2 NULL] (floats schema_opt_a_all)
         (groups schema_opt_a_all)
       = Inr [(groups schema_opt_a_all ! 0)\<lparr>gr_isUsed := True\<rparr>]
   \<and> occurrence ''-a'' 2 NULL \<in> set [occurrence ''-a'' 2 NULL]
   \<and> matching_float (occurrence ''-a'' 2 NULL) (floats schema_opt_a_all)
       = Some (floats schema_opt_a_all ! 0)
   \<and> matching_float (occurrence ''--all'' 5 NULL) (floats schema_opt_a_all)
       = Some (floats schema_opt_a_all ! 1)
   \<and> fa_groupIdx (floats schema_opt_a_all ! 1) = fa_groupIdx (floats schema_opt_a_all ! 0)
   \<and> \<not> gr_isRepeating (groups schema_opt_a_all ! fa_groupIdx (floats schema_opt_a_all ! 1))
   \<and> ext_args [''prog'', ''-a'', ''--all''] ''[-a|--all]'' [Some 0] mem0
       = Return EXT_ARGS_INPUT_ERR
           (Some (Ptr ''Same arguments provided multiple times: --all'')) mem0"
proof -
  have h2: "\<not> optional_before_mandatory (posArgs schema_opt_a_all)"
    by (simp add: schema_opt_a_all_def)
  have h3: "lex_input [''prog'', ''-a'', ''--all'']
       = Inr [flag_utok ''-a'' 2, flag_utok ''--all'' 5, eoi_utok]"
    by (simp add: lex_input_def lex_arg_def lex_defs utok_defs)
  have h4: "parse_tokens [flag_utok ''-a'' 2, flag_utok ''--all'' 5, eoi_utok] [] []
       = Inr ([occurrence ''-a'' 2 NULL] @ occurrence ''--all'' 5 NULL # [], [])"
    by (simp add: utok_defs)
  have h5: "validate_floats [occurrence ''-a'' 2 NULL] (floats schema_opt_a_all)
         (groups schema_opt_a_all)
       = Inr [(groups schema_opt_a_all ! 0)\<lparr>gr_isUsed := True\<rparr>]"
    by (simp add: schema_opt_a_all_def utok_defs strncmp_eq_def chars_of_def)
  have h6: "occurrence ''-a'' 2 NULL \<in> set [occurrence ''-a'' 2 NULL]" by simp
  have h7: "matching_float (occurrence ''-a'' 2 NULL) (floats schema_opt_a_all)
       = Some (floats schema_opt_a_all ! 0)"
    by (simp add: schema_opt_a_all_def utok_defs strncmp_eq_def chars_of_def)
  have h8: "matching_float (occurrence ''--all'' 5 NULL) (floats schema_opt_a_all)
       = Some (floats schema_opt_a_all ! 1)"
    by (simp add: schema_opt_a_all_def utok_defs strncmp_eq_def chars_of_def)
  have h9: "fa_groupIdx (floats schema_opt_a_all ! 1) = fa_groupIdx (floats schema_opt_a_all ! 0)"
    by (simp add: schema_opt_a_all_def)
  have h10: "\<not> gr_isRepeating
      (groups schema_opt_a_all ! fa_groupIdx (floats schema_opt_a_all ! 1))"
    by (simp add: schema_opt_a_all_def)
  from repeated_flag_rejected [OF Synopsis_opt_a_all h2 h3 h4 h5 h6 h7 h8 h9 h10,
      of "[Some 0]" mem0]
  have c: "ext_args [''prog'', ''-a'', ''--all''] ''[-a|--all]'' [Some 0] mem0
       = Return EXT_ARGS_INPUT_ERR
           (Some (Ptr ''Same arguments provided multiple times: --all'')) mem0"
    by (simp add: utok_defs chars_of_def)
  from Synopsis_opt_a_all h2 h3 h4 h5 h6 h7 h8 h9 h10 c show ?thesis
    by (intro conjI)
qed

section \<open>An argument that starts with the equals sign\<close>

lemma lex_arg_equals:
  "deref text \<noteq> CHR 0x00 \<Longrightarrow>
     lex_arg (CHR ''='' # text) = Inr ([eql_utok text, val_utok text], False)"
  by (simp add: lex_arg_def EXT_ARGS_ArgFloat_def EXT_ARGS_Char_def deref_def
        eql_utok_def val_utok_def)

lemma lex_arg_break:
  "lex_arg a = Inr (ts, True) \<Longrightarrow> ts = [eoi_utok]"
  by (auto simp: lex_arg_def Let_def eoi_utok_def split: prod.splits bool.splits if_splits)

lemma lex_args_append:
  "lex_args pre acc = Inr tp \<Longrightarrow> list_all (\<lambda>t. utok_type t \<noteq> EXT_ARGS_UTOK_EOI) tp \<Longrightarrow>
     lex_args (pre @ rest) acc = lex_args rest tp"
proof (induction pre arbitrary: acc)
  case Nil
  then show ?case by simp
next
  case (Cons a pre)
  from Cons.prems(1) obtain ts brk where la: "lex_arg a = Inr (ts, brk)"
    by (cases "lex_arg a") auto
  show ?case
  proof (cases brk)
    case True
    with la lex_arg_break have "ts = [eoi_utok]" by simp
    with la True Cons.prems show ?thesis by (auto simp: eoi_utok_def)
  next
    case False
    with la Cons.prems(1) have "lex_args pre (acc @ ts) = Inr tp" by simp
    from Cons.IH [OF this Cons.prems(2)] la False show ?thesis by simp
  qed
qed

lemma lex_args_extends:
  "lex_args rest acc = Inr toks \<Longrightarrow> \<exists>more. toks = acc @ more"
proof (induction rest arbitrary: acc)
  case Nil
  then show ?case by simp
next
  case (Cons a rest)
  from Cons.prems obtain ts brk where la: "lex_arg a = Inr (ts, brk)"
    by (cases "lex_arg a") auto
  show ?case
  proof (cases brk)
    case True
    with la Cons.prems show ?thesis by auto
  next
    case False
    with la Cons.prems have "lex_args rest (acc @ ts) = Inr toks" by simp
    from Cons.IH [OF this] show ?thesis by auto
  qed
qed

lemma parse_tokens_prefix:
  "list_all (\<lambda>t. utok_type t \<noteq> EXT_ARGS_UTOK_EOI) tp \<Longrightarrow>
   parse_tokens (tp @ [eoi_utok]) fl0 pa0 = Inr (fl, pa) \<Longrightarrow>
   tp = [] \<or> utok_type (last tp) = EXT_ARGS_UTOK_VAL
     \<or> (ts \<noteq> [] \<and> utok_type (hd ts) \<noteq> EXT_ARGS_UTOK_EQL) \<Longrightarrow>
   parse_tokens (tp @ ts) fl0 pa0 = parse_tokens ts fl pa"
proof (induction tp fl0 pa0 rule: parse_tokens.induct)
  case (1 fl0 pa0)
  then show ?case by (simp add: eoi_utok_def)
next
  case (2 t r fl0 pa0)
  from "2.prems"(1) have ne: "utok_type t \<noteq> EXT_ARGS_UTOK_EOI"
    and rne: "list_all (\<lambda>t. utok_type t \<noteq> EXT_ARGS_UTOK_EOI) r" by simp_all
  show ?case
  proof (cases "utok_type t")
    case EXT_ARGS_UTOK_EOI
    with ne show ?thesis by simp
  next
    case EXT_ARGS_UTOK_EQL
    with "2.prems"(2) show ?thesis by simp
  next
    case EXT_ARGS_UTOK_VAL
    with "2.prems"(2) have p: "parse_tokens (r @ [eoi_utok]) fl0 (pa0 @ [utok_str t]) = Inr (fl, pa)"
      by simp
    from "2.prems"(3) have b: "r = [] \<or> utok_type (last r) = EXT_ARGS_UTOK_VAL
       \<or> (ts \<noteq> [] \<and> utok_type (hd ts) \<noteq> EXT_ARGS_UTOK_EQL)"
      by (auto split: if_splits)
    from "2.IH"(3) [OF _ _ _ rne p b] EXT_ARGS_UTOK_VAL show ?thesis by simp
  next
    case fl: EXT_ARGS_UTOK_FLOAT
    show ?thesis
    proof (cases r)
      case Nil
      with "2.prems" fl show ?thesis
        by (cases ts) (auto simp: eoi_utok_def)
    next
      case (Cons t1 r1)
      show ?thesis
      proof (cases "utok_type t1 = EXT_ARGS_UTOK_EQL")
        case False
        with "2.prems"(2) fl Cons
        have p: "parse_tokens (r @ [eoi_utok])
                   (fl0 @ [\<lparr>uf_str = utok_str t, uf_len = utok_len t, uf_assignVal = NULL\<rparr>]) pa0
                 = Inr (fl, pa)"
          by simp
        from "2.prems"(3) Cons have b: "r = [] \<or> utok_type (last r) = EXT_ARGS_UTOK_VAL
           \<or> (ts \<noteq> [] \<and> utok_type (hd ts) \<noteq> EXT_ARGS_UTOK_EQL)"
          by (auto split: if_splits)
        from "2.IH"(2) [OF _ _ Cons False rne p b] fl Cons False ne show ?thesis by simp
      next
        case True
        show ?thesis
        proof (cases r1)
          case Nil
          with "2.prems"(2) fl Cons True show ?thesis by (simp add: eoi_utok_def)
        next
          case c2: (Cons t2 r2)
          from "2.prems"(2) fl Cons True c2 have v: "utok_type t2 = EXT_ARGS_UTOK_VAL"
            by (auto split: if_splits)
          with "2.prems"(2) fl Cons True c2
          have p: "parse_tokens (r2 @ [eoi_utok])
                     (fl0 @ [\<lparr>uf_str = utok_str t, uf_len = utok_len t,
                               uf_assignVal = utok_str t2\<rparr>]) pa0
                   = Inr (fl, pa)"
            by simp
          from rne Cons c2 have rne2: "list_all (\<lambda>t. utok_type t \<noteq> EXT_ARGS_UTOK_EOI) r2"
            by simp
          from "2.prems"(3) Cons c2 have b: "r2 = [] \<or> utok_type (last r2) = EXT_ARGS_UTOK_VAL
             \<or> (ts \<noteq> [] \<and> utok_type (hd ts) \<noteq> EXT_ARGS_UTOK_EQL)"
            by (auto split: if_splits)
          have nv: "\<not> utok_type t2 \<noteq> EXT_ARGS_UTOK_VAL" using v by simp
          from "2.IH"(1) [OF _ _ Cons True c2 nv rne2 p b] fl Cons True c2 v ne
          show ?thesis by simp
        qed
      qed
    qed
  qed
qed


lemma stray_equals_unexpected:
  assumes nonempty: "deref text \<noteq> CHR 0x00"
    and pre: "lex_args pre [] = Inr tp"
    and noeoi: "list_all (\<lambda>t. utok_type t \<noteq> EXT_ARGS_UTOK_EOI) tp"
    and parsed: "parse_tokens (tp @ [eoi_utok]) [] [] = Inr (fl, pa)"
    and boundary: "tp = [] \<or> utok_type (last tp) = EXT_ARGS_UTOK_VAL"
    and whole: "lex_input (prog # pre @ (CHR ''='' # text) # post) = Inr toks"
  shows "parse_tokens toks [] [] =
           Inl (Err EXT_ARGS_INPUT_ERR
             (''Unexpected input '' @ dquote @ CHR ''='' # text @ dquote))"
proof -
  have "lex_args (pre @ (CHR ''='' # text) # post) [] = lex_args ((CHR ''='' # text) # post) tp"
    by (rule lex_args_append [OF pre noeoi])
  also have "\<dots> = lex_args post (tp @ [eql_utok text, val_utok text])"
    by (simp add: lex_arg_equals [OF nonempty])
  finally have l: "lex_args (pre @ (CHR ''='' # text) # post) []
                     = lex_args post (tp @ [eql_utok text, val_utok text])" .
  from whole obtain toks0 where t0: "lex_args (pre @ (CHR ''='' # text) # post) [] = Inr toks0"
    and t1: "toks = toks0 \<or> toks = toks0 @ [eoi_utok]"
    by (auto simp: lex_input_def eoi_utok_def split: sum.splits if_splits)
  from t0 l lex_args_extends obtain more
    where "toks0 = (tp @ [eql_utok text, val_utok text]) @ more" by metis
  with t1 obtain more' where "toks = tp @ eql_utok text # val_utok text # more'"
    by auto
  moreover have "parse_tokens (tp @ eql_utok text # val_utok text # more') [] []
      = parse_tokens (eql_utok text # val_utok text # more') fl pa"
    using boundary by (intro parse_tokens_prefix [OF noeoi parsed]) auto
  ultimately show ?thesis by (simp add: eql_utok_def chars_of_def)
qed

lemma dangling_equals_value_expected:
  assumes nonempty: "deref text \<noteq> CHR 0x00"
    and pre: "lex_args pre [] = Inr tp"
    and noeoi: "list_all (\<lambda>t. utok_type t \<noteq> EXT_ARGS_UTOK_EOI) tp"
    and parsed: "parse_tokens (tp @ [eoi_utok]) [] [] = Inr (fl, pa)"
    and dang: "lex_args dang tp = Inr (tp @ [f, e])"
    and f: "utok_type f = EXT_ARGS_UTOK_FLOAT"
    and e: "utok_type e = EXT_ARGS_UTOK_EQL"
    and whole: "lex_input (prog # pre @ dang @ (CHR ''='' # text) # post) = Inr toks"
  shows "parse_tokens toks [] [] =
           Inl (Err EXT_ARGS_INPUT_ERR
             (''A value expected '' @ dquote @ chars_of (utok_str f) @ dquote))"
proof -
  from noeoi f e have noeoi2: "list_all (\<lambda>t. utok_type t \<noteq> EXT_ARGS_UTOK_EOI) (tp @ [f, e])"
    by simp
  have "lex_args (pre @ dang @ (CHR ''='' # text) # post) []
      = lex_args (dang @ (CHR ''='' # text) # post) tp"
    by (rule lex_args_append [OF pre noeoi])
  also have "\<dots> = lex_args ((CHR ''='' # text) # post) (tp @ [f, e])"
    by (rule lex_args_append [OF dang noeoi2])
  also have "\<dots> = lex_args post ((tp @ [f, e]) @ [eql_utok text, val_utok text])"
    by (simp add: lex_arg_equals [OF nonempty])
  finally have l: "lex_args (pre @ dang @ (CHR ''='' # text) # post) []
      = lex_args post ((tp @ [f, e]) @ [eql_utok text, val_utok text])" .
  from whole obtain toks0
    where t0: "lex_args (pre @ dang @ (CHR ''='' # text) # post) [] = Inr toks0"
      and t1: "toks = toks0 \<or> toks = toks0 @ [eoi_utok]"
    by (auto simp: lex_input_def eoi_utok_def split: sum.splits if_splits)
  from t0 l lex_args_extends obtain more
    where "toks0 = ((tp @ [f, e]) @ [eql_utok text, val_utok text]) @ more" by metis
  with t1 obtain more' where "toks = tp @ f # e # eql_utok text # val_utok text # more'"
    by auto
  moreover have "parse_tokens (tp @ f # e # eql_utok text # val_utok text # more') [] []
      = parse_tokens (f # e # eql_utok text # val_utok text # more') fl pa"
    using f by (intro parse_tokens_prefix [OF noeoi parsed]) simp
  ultimately show ?thesis using f e by (simp add: eql_utok_def)
qed

text \<open>
  Claim C10, as stated, fails: after a flag that carries a dangling \<^verbatim>\<open>=\<close> the equals token
  of \<^verbatim>\<open>=x\<close> is not reported as unexpected input; the parser reports that the flag
  expects a value.
\<close>

theorem equals_after_dangling_equals:
  "ext_args [''prog'', ''-a='', ''=x''] ''-a=val'' [Some 0] mem0
     = Return EXT_ARGS_INPUT_ERR
         (Some (Ptr (''A value expected '' @ dquote @ ''-a='' @ dquote))) mem0
   \<and> ext_args [''prog'', ''-a='', ''=x''] ''-a=val'' [Some 0] mem0
     \<noteq> Return EXT_ARGS_INPUT_ERR
         (Some (Ptr (''Unexpected input '' @ dquote @ ''=x'' @ dquote))) mem0"
  by (simp add: ext_args_def Synopsis_a_val schema_a_val_def input_defs)

text \<open>
  Claim C10, amended. Let \<open>text\<close> be a non-empty string, and let the raw arguments \<open>pre\<close>
  before \<^verbatim>\<open>=text\<close> be tokenized without error and without a terminator into the tokens
  \<open>tp\<close>, which parse without error on their own. Then
  \<^item> the raw argument \<^verbatim>\<open>=text\<close> is tokenized into an equals token and a value token;
  \<^item> if these two tokens come right after the token of a bare flag, the parser makes
    \<open>text\<close> the assigned value of that occurrence and goes on after them;
  \<^item> if \<^verbatim>\<open>=text\<close> is the first raw argument or comes right after a value (a plain
    value, the value of \<^verbatim>\<open>flag=value\<close>, or another \<^verbatim>\<open>=value\<close> that was assigned), the
    schema is accepted and the whole argument vector is tokenized without error, then
    \<^verbatim>\<open>ext_args\<close> returns \<^verbatim>\<open>EXT_ARGS_INPUT_ERR\<close> with the message
    \<^verbatim>\<open>Unexpected input "=text"\<close> and leaves the caller's variables as they were;
  \<^item> if the raw arguments \<open>dang\<close> between \<open>pre\<close> and \<^verbatim>\<open>=text\<close> are tokenized into a flag
    token followed by an equals token (a flag with a dangling \<^verbatim>\<open>=\<close>, as \<^verbatim>\<open>-a=\<close>), the
    schema is accepted and the whole argument vector is tokenized without error, then
    \<^verbatim>\<open>ext_args\<close> returns \<^verbatim>\<open>EXT_ARGS_INPUT_ERR\<close> with the message \<^verbatim>\<open>A value expected\<close>
    quoting the raw argument of that flag, and leaves the caller's variables as they were.
\<close>

theorem equals_value_argument:
  assumes "deref text \<noteq> CHR 0x00"
    and "lex_args pre [] = Inr tp"
    and "list_all (\<lambda>t. utok_type t \<noteq> EXT_ARGS_UTOK_EOI) tp"
    and "parse_tokens (tp @ [eoi_utok]) [] [] = Inr (fl, pa)"
  shows "lex_arg (CHR ''='' # text) = Inr ([eql_utok text, val_utok text], False)
     \<and> (utok_type f = EXT_ARGS_UTOK_FLOAT \<longrightarrow>
          parse_tokens (tp @ f # eql_utok text # val_utok text # rest) [] [] =
          parse_tokens rest
            (fl @ [\<lparr>uf_str = utok_str f, uf_len = utok_len f, uf_assignVal = Ptr text\<rparr>]) pa)
     \<and> ((tp = [] \<or> utok_type (last tp) = EXT_ARGS_UTOK_VAL)
          \<and> EXT_ARGS_Synopsis (init_parser fmt) = Inr prs
          \<and> \<not> optional_before_mandatory (posArgs prs)
          \<and> lex_input (prog # pre @ (CHR ''='' # text) # post) = Inr toks \<longrightarrow>
          ext_args (prog # pre @ (CHR ''='' # text) # post) fmt ap m =
            Return EXT_ARGS_INPUT_ERR
              (Some (Ptr (''Unexpected input '' @ dquote @ CHR ''='' # text @ dquote))) m)
     \<and> (lex_args dang tp = Inr (tp @ [df, de])
          \<and> utok_type df = EXT_ARGS_UTOK_FLOAT \<and> utok_type de = EXT_ARGS_UTOK_EQL
          \<and> EXT_ARGS_Synopsis (init_parser fmt) = Inr prs
          \<and> \<not> optional_before_mandatory (posArgs prs)
          \<and> lex_input (prog # pre @ dang @ (CHR ''='' # text) # post) = Inr dtoks \<longrightarrow>
          ext_args (prog # pre @ dang @ (CHR ''='' # text) # post) fmt ap m =
            Return EXT_ARGS_INPUT_ERR
              (Some (Ptr (''A value expected '' @ dquote @ chars_of (utok_str df) @ dquote))) m)"
proof (intro conjI impI)
  show "lex_arg (CHR ''='' # text) = Inr ([eql_utok text, val_utok text], False)"
    by (rule lex_arg_equals [OF assms(1)])
next
  assume f: "utok_type f = EXT_ARGS_UTOK_FLOAT"
  have "parse_tokens (tp @ f # eql_utok text # val_utok text # rest) [] []
      = parse_tokens (f # eql_utok text # val_utok text # rest) fl pa"
    using f by (intro parse_tokens_prefix [OF assms(3,4)]) simp
  also have "\<dots> = parse_tokens rest
      (fl @ [\<lparr>uf_str = utok_str f, uf_len = utok_len f, uf_assignVal = Ptr text\<rparr>]) pa"
    using f by (simp add: eql_utok_def val_utok_def)
  finally show "parse_tokens (tp @ f # eql_utok text # val_utok text # rest) [] [] =
      parse_tokens rest
        (fl @ [\<lparr>uf_str = utok_str f, uf_len = utok_len f, uf_assignVal = Ptr text\<rparr>]) pa" .
next
  assume c: "(tp = [] \<or> utok_type (last tp) = EXT_ARGS_UTOK_VAL)
      \<and> EXT_ARGS_Synopsis (init_parser fmt) = Inr prs
      \<and> \<not> optional_before_mandatory (posArgs prs)
      \<and> lex_input (prog # pre @ (CHR ''='' # text) # post) = Inr toks"
  then have b: "tp = [] \<or> utok_type (last tp) = EXT_ARGS_UTOK_VAL"
    and w: "lex_input (prog # pre @ (CHR ''='' # text) # post) = Inr toks" by simp_all
  have "parse_tokens toks [] [] =
      Inl (Err EXT_ARGS_INPUT_ERR (''Unexpected input '' @ dquote @ CHR ''='' # text @ dquote))"
    by (rule stray_equals_unexpected [OF assms b w])
  with c have "read_input prs (prog # pre @ (CHR ''='' # text) # post) =
      Inl (Err EXT_ARGS_INPUT_ERR (''Unexpected input '' @ dquote @ CHR ''='' # text @ dquote))"
    by (simp add: read_input_def)
  with c ext_args_read_error
  show "ext_args (prog # pre @ (CHR ''='' # text) # post) fmt ap m =
      Return EXT_ARGS_INPUT_ERR
        (Some (Ptr (''Unexpected input '' @ dquote @ CHR ''='' # text @ dquote))) m"
    by simp
next
  assume d: "lex_args dang tp = Inr (tp @ [df, de])
      \<and> utok_type df = EXT_ARGS_UTOK_FLOAT \<and> utok_type de = EXT_ARGS_UTOK_EQL
      \<and> EXT_ARGS_Synopsis (init_parser fmt) = Inr prs
      \<and> \<not> optional_before_mandatory (posArgs prs)
      \<and> lex_input (prog # pre @ dang @ (CHR ''='' # text) # post) = Inr dtoks"
  then have d1: "lex_args dang tp = Inr (tp @ [df, de])"
    and d2: "utok_type df = EXT_ARGS_UTOK_FLOAT" and d3: "utok_type de = EXT_ARGS_UTOK_EQL"
    and w: "lex_input (prog # pre @ dang @ (CHR ''='' # text) # post) = Inr dtoks"
    by simp_all
  have "parse_tokens dtoks [] [] =
      Inl (Err EXT_ARGS_INPUT_ERR
        (''A value expected '' @ dquote @ chars_of (utok_str df) @ dquote))"
    by (rule dangling_equals_value_expected [OF assms d1 d2 d3 w])
  with d have "read_input prs (prog # pre @ dang @ (CHR ''='' # text) # post) =
      Inl (Err EXT_ARGS_INPUT_ERR
        (''A value expected '' @ dquote @ chars_of (utok_str df) @ dquote))"
    by (simp add: read_input_def)
  with d ext_args_read_error
  show "ext_args (prog # pre @ dang @ (CHR ''='' # text) # post) fmt ap m =
      Return EXT_ARGS_INPUT_ERR
        (Some (Ptr (''A value expected '' @ dquote @ chars_of (utok_str df) @ dquote))) m"
    by simp
qed

theorem equals_value_argument_witness:
  "deref ''b'' \<noteq> CHR 0x00
   \<and> lex_args [''-a=1''] [] = Inr [flag_utok ''-a=1'' 2, eql_utok ''1'', val_utok ''1'']
   \<and> list_all (\<lambda>t. utok_type t \<noteq> EXT_ARGS_UTOK_EOI)
         [flag_utok ''-a=1'' 2, eql_utok ''1'', val_utok ''1'']
   \<and> parse_tokens ([flag_utok ''-a=1'' 2, eql_utok ''1'', val_utok ''1''] @ [eoi_utok]) [] []
       = Inr ([\<lparr>uf_str = Ptr ''-a=1'', uf_len = 2, uf_assignVal = Ptr ''1''\<rparr>], [])
   \<and> lex_arg ''=b'' = Inr ([eql_utok ''b'', val_utok ''b''], False)
   \<and> utok_type (flag_utok ''-c'' 2) = EXT_ARGS_UTOK_FLOAT
   \<and> parse_tokens ([flag_utok ''-a=1'' 2, eql_utok ''1'', val_utok ''1'']
                      @ flag_utok ''-c'' 2 # eql_utok ''b'' # val_utok ''b'' # [eoi_utok]) [] []
       = Inr ([\<lparr>uf_str = Ptr ''-a=1'', uf_len = 2, uf_assignVal = Ptr ''1''\<rparr>,
               \<lparr>uf_str = Ptr ''-c'', uf_len = 2, uf_assignVal = Ptr ''b''\<rparr>], [])
   \<and> utok_type (last [flag_utok ''-a=1'' 2, eql_utok ''1'', val_utok ''1'']) = EXT_ARGS_UTOK_VAL
   \<and> EXT_ARGS_Synopsis (init_parser ''-a=val'') = Inr schema_a_val
   \<and> \<not> optional_before_mandatory (posArgs schema_a_val)
   \<and> lex_input (''prog'' # [''-a=1''] @ ''=b'' # [])
       = Inr [flag_utok ''-a=1'' 2, eql_utok ''1'', val_utok ''1'',
              eql_utok ''b'', val_utok ''b'', eoi_utok]
   \<and> ext_args (''prog'' # [''-a=1''] @ ''=b'' # []) ''-a=val'' [Some 0] mem0
       = Return EXT_ARGS_INPUT_ERR
           (Some (Ptr (''Unexpected input '' @ dquote @ ''=b'' @ dquote))) mem0
   \<and> lex_args [''-a=''] [flag_utok ''-a=1'' 2, eql_utok ''1'', val_utok ''1'']
       = Inr ([flag_utok ''-a=1'' 2, eql_utok ''1'', val_utok ''1'']
              @ [flag_utok ''-a='' 2, eql_utok []])
   \<and> utok_type (flag_utok ''-a='' 2) = EXT_ARGS_UTOK_FLOAT
   \<and> utok_type (eql_utok []) = EXT_ARGS_UTOK_EQL
   \<and> lex_input (''prog'' # [''-a=1''] @ [''-a=''] @ ''=b'' # [])
       = Inr [flag_utok ''-a=1'' 2, eql_utok ''1'', val_utok ''1'',
              flag_utok ''-a='' 2, eql_utok [],
              eql_utok ''b'', val_utok ''b'', eoi_utok]
   \<and> ext_args (''prog'' # [''-a=1''] @ [''-a=''] @ ''=b'' # []) ''-a=val'' [Some 0] mem0
       = Return EXT_ARGS_INPUT_ERR
           (Some (Ptr (''A value expected '' @ dquote @ ''-a='' @ dquote))) mem0"
proof -
  let ?tp = "[flag_utok ''-a=1'' 2, eql_utok ''1'', val_utok ''1'']"
  let ?fl = "[\<lparr>uf_str = Ptr ''-a=1'', uf_len = 2, uf_assignVal = Ptr ''1''\<rparr>]"
  have h1: "deref ''b'' \<noteq> CHR 0x00" by (simp add: deref_def)
  have h2: "lex_args [''-a=1''] [] = Inr ?tp"
    by (simp add: lex_arg_def lex_defs flag_utok_def eql_utok_def val_utok_def)
  have h3: "list_all (\<lambda>t. utok_type t \<noteq> EXT_ARGS_UTOK_EOI) ?tp"
    by (simp add: flag_utok_def eql_utok_def val_utok_def)
  have h4: "parse_tokens (?tp @ [eoi_utok]) [] [] = Inr (?fl, [])"
    by (simp add: flag_utok_def eql_utok_def val_utok_def eoi_utok_def)
  have h5: "utok_type (flag_utok ''-c'' 2) = EXT_ARGS_UTOK_FLOAT" by (simp add: flag_utok_def)
  have h6: "utok_type (last ?tp) = EXT_ARGS_UTOK_VAL" by (simp add: val_utok_def)
  have h7: "\<not> optional_before_mandatory (posArgs schema_a_val)" by (simp add: schema_a_val_def)
  have h8: "lex_input (''prog'' # [''-a=1''] @ ''=b'' # [])
       = Inr [flag_utok ''-a=1'' 2, eql_utok ''1'', val_utok ''1'',
              eql_utok ''b'', val_utok ''b'', eoi_utok]"
    by (simp add: lex_input_def lex_arg_def lex_defs flag_utok_def eql_utok_def val_utok_def
          eoi_utok_def)
  have h9: "lex_args [''-a=''] ?tp = Inr (?tp @ [flag_utok ''-a='' 2, eql_utok []])"
    by (simp add: lex_arg_def lex_defs flag_utok_def eql_utok_def val_utok_def)
  have h10: "utok_type (flag_utok ''-a='' 2) = EXT_ARGS_UTOK_FLOAT" by (simp add: flag_utok_def)
  have h11: "utok_type (eql_utok []) = EXT_ARGS_UTOK_EQL" by (simp add: eql_utok_def)
  have h12: "lex_input (''prog'' # [''-a=1''] @ [''-a=''] @ ''=b'' # [])
       = Inr [flag_utok ''-a=1'' 2, eql_utok ''1'', val_utok ''1'',
              flag_utok ''-a='' 2, eql_utok [],
              eql_utok ''b'', val_utok ''b'', eoi_utok]"
    by (simp add: lex_input_def lex_arg_def lex_defs flag_utok_def eql_utok_def val_utok_def
          eoi_utok_def)
  note t = equals_value_argument [OF h1 h2 h3 h4,
      where f = "flag_utok ''-c'' 2" and rest = "[eoi_utok]" and fmt = "''-a=val''"
        and prs = schema_a_val and prog = "''prog''" and post = "[]"
        and dang = "[''-a='']" and df = "flag_utok ''-a='' 2" and de = "eql_utok []"
        and dtoks = "[flag_utok ''-a=1'' 2, eql_utok ''1'', val_utok ''1'',
              flag_utok ''-a='' 2, eql_utok [],
              eql_utok ''b'', val_utok ''b'', eoi_utok]"
        and toks = "[flag_utok ''-a=1'' 2, eql_utok ''1'', val_utok ''1'',
              eql_utok ''b'', val_utok ''b'', eoi_utok]" and ap = "[Some 0]" and m = mem0]
  from t h5 have b: "parse_tokens (?tp @ flag_utok ''-c'' 2 # eql_utok ''b'' # val_utok ''b''
        # [eoi_utok]) [] []
     = parse_tokens [eoi_utok]
         (?fl @ [\<lparr>uf_str = utok_str (flag_utok ''-c'' 2), uf_len = utok_len (flag_utok ''-c'' 2),
                    uf_assignVal = Ptr ''b''\<rparr>]) []"
    by blast
  from t h6 h7 h8 Synopsis_a_val
  have c: "ext_args (''prog'' # [''-a=1''] @ ''=b'' # []) ''-a=val'' [Some 0] mem0
       = Return EXT_ARGS_INPUT_ERR
           (Some (Ptr (''Unexpected input '' @ dquote @ CHR ''='' # ''b'' @ dquote))) mem0"
    by blast
  from t have a: "lex_arg (CHR ''='' # ''b'') = Inr ([eql_utok ''b'', val_utok ''b''], False)"
    by blast
  from b have b': "parse_tokens (?tp @ flag_utok ''-c'' 2 # eql_utok ''b'' # val_utok ''b''
        # [eoi_utok]) [] []
     = Inr ([\<lparr>uf_str = Ptr ''-a=1'', uf_len = 2, uf_assignVal = Ptr ''1''\<rparr>,
               \<lparr>uf_str = Ptr ''-c'', uf_len = 2, uf_assignVal = Ptr ''b''\<rparr>], [])"
    by (simp add: flag_utok_def eoi_utok_def)
  from t h9 h10 h11 h12 h7 Synopsis_a_val
  have d: "ext_args (''prog'' # [''-a=1''] @ [''-a=''] @ ''=b'' # []) ''-a=val'' [Some 0] mem0
       = Return EXT_ARGS_INPUT_ERR
           (Some (Ptr (''A value expected '' @ dquote
                       @ chars_of (utok_str (flag_utok ''-a='' 2)) @ dquote))) mem0"
    by blast
  then have d': "ext_args (''prog'' # [''-a=1''] @ [''-a=''] @ ''=b'' # []) ''-a=val'' [Some 0] mem0
       = Return EXT_ARGS_INPUT_ERR
           (Some (Ptr (''A value expected '' @ dquote @ ''-a='' @ dquote))) mem0"
    by (simp add: flag_utok_def chars_of_def)
  from h1 h2 h3 h4 a h5 b' h6 Synopsis_a_val h7 h8 c h9 h10 h11 h12 d' show ?thesis
    by (intro conjI) simp_all
qed



end
